theory Spec2Isabelle
  imports Complex_Main "HOL-Library.Word" "HOL-Library.Sublist" "HOL-Library.Log_Nat"
begin

section \<open>Python values used by app.py\<close>

text \<open>
  A Python \<open>bytes\<close> object is a list of 8-bit words.  A Python \<open>str\<close> is a \<open>string\<close>;
  the only string operations of app.py that matter here (\<open>in\<close>, \<open>split\<close>, concatenation)
  search for the ASCII text \<open>id=\<close>, and behave the same on the UTF-8 bytes of a text as
  on its code points.  An exception is a value of \<open>py_exn\<close>; every constructor stands for
  an instance of Python's \<open>Exception\<close> class, which is what \<open>except Exception\<close> catches.
\<close>

type_synonym byte = "8 word"
type_synonym bytes = "byte list"

datatype py_exn = IndexError | LibraryError string

text \<open>Truth value of \<open>if v:\<close> for a value that is \<open>None\<close> or a \<open>str\<close>.\<close>

definition truthy :: "string option \<Rightarrow> bool" where
  "truthy v = (case v of None \<Rightarrow> False | Some s \<Rightarrow> s \<noteq> [])"

text \<open>\<open>xs[i]\<close> for a non-negative index: IndexError out of range.\<close>

definition py_index :: "'a list \<Rightarrow> nat \<Rightarrow> py_exn + 'a" where
  "py_index xs i = (if i < length xs then Inr (xs ! i) else Inl IndexError)"

text \<open>\<open>s.find(sep)\<close>: position of the first occurrence of \<open>sep\<close> in \<open>s\<close>, if any.\<close>

fun find_str :: "string \<Rightarrow> string \<Rightarrow> nat option" where
  "find_str sep [] = (if sep = [] then Some 0 else None)"
| "find_str sep (c # cs) =
     (if prefix sep (c # cs) then Some 0 else map_option Suc (find_str sep cs))"

text \<open>\<open>sep in s\<close>.\<close>

definition contains :: "string \<Rightarrow> string \<Rightarrow> bool" where
  "contains sep s = (find_str sep s \<noteq> None)"

text \<open>
  \<open>s.split(sep)\<close> for a non-empty separator: cut at the first occurrence, go on after it.
  The accumulator \<open>cur\<close> holds the current piece, reversed.
\<close>

fun split_from :: "string \<Rightarrow> string \<Rightarrow> string \<Rightarrow> nat \<Rightarrow> string list" where
  "split_from sep cur [] skip = [rev cur]"
| "split_from sep cur (c # cs) (Suc k) = split_from sep cur cs k"
| "split_from sep cur (c # cs) 0 =
     (if sep \<noteq> [] \<and> prefix sep (c # cs)
      then rev cur # split_from sep [] cs (length sep - 1)
      else split_from sep (c # cur) cs 0)"

definition py_split :: "string \<Rightarrow> string \<Rightarrow> string list" where
  "py_split s sep = split_from sep [] s 0"

section \<open>The simulated database\<close>

text \<open>The secret bundle of \<open>generate_secret_bundle\<close> (a dict with these four keys).\<close>

record secret_bundle =
  cert_id :: string
  guilloche_id :: bytes
  border_id :: bytes
  serial_number :: string

text \<open>The dict stored per tag; its fields carry the prefix \<open>rec_\<close>.\<close>

record registry_record =
  rec_batch_code :: string
  rec_cert_id :: string
  rec_guilloche_id :: string
  rec_border_id :: string
  rec_serial_number :: string
  rec_created_at :: string
  rec_authentic :: bool

type_synonym tag_database = "string \<rightharpoonup> registry_record"

text \<open>\<open>bytes.hex()\<close>: two lowercase hexadecimal digits per byte.\<close>

definition hex_digit :: "nat \<Rightarrow> char" where
  "hex_digit n = ''0123456789abcdef'' ! (n mod 16)"

definition hex :: "bytes \<Rightarrow> string" where
  "hex bs = concat (map (\<lambda>b. [hex_digit (unat b div 16), hex_digit (unat b mod 16)]) bs)"

text \<open>
  \<open>store_tag_in_db\<close>: the session's \<open>tag_database\<close> is passed in and returned; \<open>now\<close> is
  the text of \<open>datetime.now().isoformat()\<close>.
\<close>

definition store_tag_in_db :: "tag_database \<Rightarrow> secret_bundle \<Rightarrow> string \<Rightarrow> string \<Rightarrow> tag_database" where
  "store_tag_in_db tag_db b batch_code now =
     tag_db(cert_id b \<mapsto>
       \<lparr>rec_batch_code = batch_code,
        rec_cert_id = cert_id b,
        rec_guilloche_id = hex (guilloche_id b),
        rec_border_id = hex (border_id b),
        rec_serial_number = serial_number b,
        rec_created_at = now,
        rec_authentic = True\<rparr>)"

definition verify_tag_in_db :: "tag_database \<Rightarrow> string \<Rightarrow> registry_record option" where
  "verify_tag_in_db tag_db cid =
     (case tag_db cid of Some r \<Rightarrow> Some r | None \<Rightarrow> None)"

section \<open>Analysis result and verdict\<close>

record analysis =
  qr_detected :: bool
  qr_cert_id :: "string option"
  guilloche_detected :: bool
  grid_detected :: bool
  corners_detected :: bool
  overall_valid :: bool

datatype verdict = AUTHENTIC | SUSPICIOUS | COUNTERFEIT | SCAN_FAILED

text \<open>
  Tab 2, "Verify against database": \<open>tag_data\<close> stays \<open>None\<close> unless \<open>qr_cert_id\<close> is
  truthy.  A stored record is a dict of seven keys, hence truthy, so \<open>if tag_data\<close> is
  the test \<open>tag_data \<noteq> None\<close>.
\<close>

definition tag_data_of :: "analysis \<Rightarrow> tag_database \<Rightarrow> registry_record option" where
  "tag_data_of a tag_db =
     (case qr_cert_id a of
        None \<Rightarrow> None
      | Some c \<Rightarrow> if c \<noteq> [] then verify_tag_in_db tag_db c else None)"

text \<open>The four-way \<open>if/elif/else\<close> of the verification status.\<close>

definition verification_status :: "analysis \<Rightarrow> tag_database \<Rightarrow> verdict" where
  "verification_status a tag_db =
     (let tag_data = tag_data_of a tag_db in
      if tag_data \<noteq> None \<and> overall_valid a then AUTHENTIC
      else if tag_data \<noteq> None \<and> \<not> overall_valid a then SUSPICIOUS
      else if truthy (qr_cert_id a) \<and> tag_data = None then COUNTERFEIT
      else SCAN_FAILED)"

section \<open>Exceptions and library calls\<close>

text \<open>A computation that may raise is a value of \<open>py_exn + 'a\<close>; \<open>bind\<close> sequences two.\<close>

definition bind :: "py_exn + 'a \<Rightarrow> ('a \<Rightarrow> py_exn + 'b) \<Rightarrow> py_exn + 'b" where
  "bind m f = (case m of Inl e \<Rightarrow> Inl e | Inr v \<Rightarrow> f v)"

text \<open>\<open>try: body  except Exception as e: return dflt\<close>.\<close>

definition try_except :: "py_exn + 'a \<Rightarrow> 'a \<Rightarrow> py_exn + 'a" where
  "try_except body dflt = (case body of Inl e \<Rightarrow> Inr dflt | Inr v \<Rightarrow> Inr v)"

text \<open>
  The calls into PIL, numpy, OpenCV and pyzbar are parameters of the model: each is
  a function that returns its result or raises.  \<open>'img\<close> is a PIL image, \<open>'arr\<close> a numpy
  array.  The fixed arguments of app.py are part of the call:
  \<^item> \<open>np_array\<close> is \<open>np.array(image)\<close>, \<open>image_size\<close> is \<open>image.size\<close>;
  \<^item> \<open>decode\<close> is pyzbar's \<open>decode\<close>, giving \<open>obj.data\<close> of every decoded object, and
    \<open>decode_utf8\<close> is \<open>bytes.decode('utf-8')\<close>;
  \<^item> \<open>cvtColor_RGB2HSV\<close> gives the HSV pixels (three bytes each) in array order;
  \<^item> \<open>Canny\<close> is \<open>cv2.Canny(gray, 50, 150, apertureSize=3)\<close>;
  \<^item> \<open>HoughLinesP\<close> is \<open>cv2.HoughLinesP(edges, 1, np.pi/180, threshold=100,
    minLineLength=50, maxLineGap=10)\<close>: \<open>None\<close> or the segments found;
  \<^item> \<open>cornerHarris\<close> is \<open>cv2.cornerHarris(gray, blockSize=2, ksize=3, k=0.04)\<close>;
  \<^item> \<open>count_above_1pct_of_max\<close> is \<open>np.sum(corners > 0.01 * corners.max())\<close>.
\<close>

type_synonym hsv_pixel = "byte \<times> byte \<times> byte"

record ('img, 'arr) libs =
  np_array :: "'img \<Rightarrow> py_exn + 'arr"
  image_size :: "'img \<Rightarrow> nat \<times> nat"
  decode :: "'arr \<Rightarrow> py_exn + bytes list"
  decode_utf8 :: "bytes \<Rightarrow> py_exn + string"
  cvtColor_RGB2HSV :: "'arr \<Rightarrow> py_exn + hsv_pixel list"
  cvtColor_RGB2GRAY :: "'arr \<Rightarrow> py_exn + 'arr"
  Canny :: "'arr \<Rightarrow> py_exn + 'arr"
  HoughLinesP :: "'arr \<Rightarrow> py_exn + (int \<times> int \<times> int \<times> int) list option"
  cornerHarris :: "'arr \<Rightarrow> py_exn + 'arr"
  count_above_1pct_of_max :: "'arr \<Rightarrow> py_exn + nat"

section \<open>Scan and verification functions\<close>

subsection \<open>QR detector\<close>

text \<open>The \<open>for obj in decoded_objects\<close> loop; falling out of it reaches \<open>return None\<close>.\<close>

fun scan_decoded_objects :: "('img, 'arr) libs \<Rightarrow> bytes list \<Rightarrow> py_exn + string option" where
  "scan_decoded_objects L [] = Inr None"
| "scan_decoded_objects L (obj # objs) =
     (case decode_utf8 L obj of
        Inl e \<Rightarrow> Inl e
      | Inr qr_data \<Rightarrow>
          if contains ''id='' qr_data
          then (case py_index (py_split qr_data ''id='') 1 of
                  Inl e \<Rightarrow> Inl e
                | Inr cid \<Rightarrow> Inr (Some cid))
          else scan_decoded_objects L objs)"

definition detect_qr_code_body :: "('img, 'arr) libs \<Rightarrow> 'img \<Rightarrow> py_exn + string option" where
  "detect_qr_code_body L img =
     bind (np_array L img) (\<lambda>img_array.
     bind (decode L img_array) (\<lambda>decoded_objects.
       if decoded_objects \<noteq> [] then scan_decoded_objects L decoded_objects
       else Inr None))"

definition detect_qr_code :: "('img, 'arr) libs \<Rightarrow> 'img \<Rightarrow> py_exn + string option" where
  "detect_qr_code L img = try_except (detect_qr_code_body L img) None"

subsection \<open>Guilloche detector\<close>

text \<open>
  \<open>cv2.inRange\<close>: 255 where every channel lies between the bounds (both inclusive),
  0 elsewhere.  \<open>np.sum(mask > 0)\<close> counts the non-zero entries.
\<close>

definition inRange :: "hsv_pixel list \<Rightarrow> nat \<times> nat \<times> nat \<Rightarrow> nat \<times> nat \<times> nat \<Rightarrow> byte list" where
  "inRange src lowerb upperb =
     map (\<lambda>(h, s, v).
            case (lowerb, upperb) of ((lh, ls, lv), (uh, us, uv)) \<Rightarrow>
              if lh \<le> unat h \<and> unat h \<le> uh \<and> ls \<le> unat s \<and> unat s \<le> us
                 \<and> lv \<le> unat v \<and> unat v \<le> uv
              then 255 else 0) src"

definition count_positive :: "byte list \<Rightarrow> nat" where
  "count_positive msk = length (filter (\<lambda>m. 0 < m) msk)"

definition cyan_lower :: "nat \<times> nat \<times> nat" where "cyan_lower = (80, 50, 50)"
definition cyan_upper :: "nat \<times> nat \<times> nat" where "cyan_upper = (100, 255, 255)"
definition magenta_lower :: "nat \<times> nat \<times> nat" where "magenta_lower = (140, 50, 50)"
definition magenta_upper :: "nat \<times> nat \<times> nat" where "magenta_upper = (170, 255, 255)"

text \<open>
  The one float computation of the detector, \<open>total_pixels * 0.02\<close>, is modelled exactly.
  A double has 53 significant bits and every operation rounds to nearest, ties to even:
  \<open>round_53 n\<close> is that rounding of the natural number \<open>n\<close> (\<open>floorlog 2 n\<close> is its bit
  length).  The literal \<open>0.02\<close> is the double \<open>0x3F947AE147AE147B\<close>, that is
  \<open>5764607523034235 / 2^58\<close>.  Python converts the int to a double (rounding) and
  multiplies (rounding); the result is a real number here.
\<close>

definition round_53 :: "nat \<Rightarrow> nat" where
  "round_53 n =
     (let k = floorlog 2 n - 53; q = n div 2 ^ k; r = n mod 2 ^ k in
      if 2 ^ k < 2 * r \<or> (2 * r = 2 ^ k \<and> odd q) then (q + 1) * 2 ^ k else q * 2 ^ k)"

definition mantissa_0_02 :: nat where
  "mantissa_0_02 = 5764607523034235"

definition float_mul_0_02 :: "nat \<Rightarrow> real" where
  "float_mul_0_02 n = real (round_53 (round_53 n * mantissa_0_02)) / 2 ^ 58"

definition detect_guilloche_pattern_body :: "('img, 'arr) libs \<Rightarrow> 'img \<Rightarrow> py_exn + bool" where
  "detect_guilloche_pattern_body L img =
     bind (np_array L img) (\<lambda>img_array.
     bind (cvtColor_RGB2HSV L img_array) (\<lambda>hsv.
       let cyan_mask = inRange hsv cyan_lower cyan_upper;
           magenta_mask = inRange hsv magenta_lower magenta_upper;
           cyan_pixels = count_positive cyan_mask;
           magenta_pixels = count_positive magenta_mask;
           total_pixels = fst (image_size L img) * snd (image_size L img);
           threshold = float_mul_0_02 total_pixels
       in Inr (threshold < real cyan_pixels \<or> threshold < real magenta_pixels)))"

definition detect_guilloche_pattern :: "('img, 'arr) libs \<Rightarrow> 'img \<Rightarrow> py_exn + bool" where
  "detect_guilloche_pattern L img = try_except (detect_guilloche_pattern_body L img) False"

subsection \<open>Grid detector\<close>

definition detect_grid_pattern_body :: "('img, 'arr) libs \<Rightarrow> 'img \<Rightarrow> py_exn + bool" where
  "detect_grid_pattern_body L img =
     bind (np_array L img) (\<lambda>img_array.
     bind (cvtColor_RGB2GRAY L img_array) (\<lambda>gray.
     bind (Canny L gray) (\<lambda>edges.
     bind (HoughLinesP L edges) (\<lambda>lines.
       Inr (case lines of None \<Rightarrow> False | Some ls \<Rightarrow> 10 < length ls)))))"

definition detect_grid_pattern :: "('img, 'arr) libs \<Rightarrow> 'img \<Rightarrow> py_exn + bool" where
  "detect_grid_pattern L img = try_except (detect_grid_pattern_body L img) False"

subsection \<open>Corner detector\<close>

definition detect_corner_markers_body :: "('img, 'arr) libs \<Rightarrow> 'img \<Rightarrow> py_exn + bool" where
  "detect_corner_markers_body L img =
     bind (np_array L img) (\<lambda>img_array.
     bind (cvtColor_RGB2GRAY L img_array) (\<lambda>gray.
     bind (cornerHarris L gray) (\<lambda>corners.
     bind (count_above_1pct_of_max L corners) (\<lambda>corner_count.
       Inr (4 \<le> corner_count)))))"

definition detect_corner_markers :: "('img, 'arr) libs \<Rightarrow> 'img \<Rightarrow> py_exn + bool" where
  "detect_corner_markers L img = try_except (detect_corner_markers_body L img) False"

subsection \<open>Analyzer\<close>

definition initial_results :: analysis where
  "initial_results =
     \<lparr>qr_detected = False, qr_cert_id = None, guilloche_detected = False,
      grid_detected = False, corners_detected = False, overall_valid = False\<rparr>"

definition analyze_tag_image :: "('img, 'arr) libs \<Rightarrow> 'img \<Rightarrow> py_exn + analysis" where
  "analyze_tag_image L img =
     bind (detect_qr_code L img) (\<lambda>cid.
       let results1 = (if truthy cid
                       then initial_results\<lparr>qr_detected := True, qr_cert_id := cid\<rparr>
                       else initial_results)
       in
     bind (detect_guilloche_pattern L img) (\<lambda>g.
       let results2 = results1\<lparr>guilloche_detected := g\<rparr> in
     bind (detect_grid_pattern L img) (\<lambda>gr.
       let results3 = results2\<lparr>grid_detected := gr\<rparr> in
     bind (detect_corner_markers L img) (\<lambda>co.
       let results4 = results3\<lparr>corners_detected := co\<rparr> in
       Inr (results4\<lparr>overall_valid :=
              qr_detected results4 \<and> guilloche_detected results4
              \<and> grid_detected results4 \<and> corners_detected results4\<rparr>)))))"

subsection \<open>Verification report\<close>

text \<open>
  The download button of tab 2, the block under \<open>if analysis['qr_cert_id']\<close>: it computes
  \<open>verification_result\<close> (here \<open>result\<close>), builds the dict \<open>report_data\<close>, passes it to
  \<open>json.dumps(report_data, indent=2)\<close> and creates the button from the text returned.
  The nested dict \<open>components_detected\<close> is flattened into the fields \<open>qr_code\<close>,
  \<open>guilloche\<close>, \<open>grid\<close> and \<open>corners\<close>; the key \<open>cert_id\<close> is the field \<open>report_cert_id\<close>;
  \<open>now\<close> is \<open>datetime.now().isoformat()\<close>.

  \<open>json.dumps\<close> raises TypeError on a value that is not a Python \<open>bool\<close>, \<open>str\<close> or \<open>dict\<close>.
  The guilloche and the corner detector return a \<open>numpy.bool_\<close> whenever their body runs
  to its end, and a Python \<open>False\<close> only from their \<open>except\<close> branch.  The record
  \<open>analysis\<close> does not keep that difference, so the call is the parameter \<open>json_dumps\<close>,
  which returns the text or raises.  The result is \<open>None\<close> when no button is created, and
  the dict with its JSON text when one is.
\<close>

record report_data =
  scan_time :: string
  report_cert_id :: "string option"
  qr_code :: bool
  guilloche :: bool
  grid :: bool
  corners :: bool
  verification_result :: string

definition verification_report ::
  "(report_data \<Rightarrow> py_exn + string) \<Rightarrow> analysis \<Rightarrow> tag_database \<Rightarrow> string
     \<Rightarrow> py_exn + (report_data \<times> string) option" where
  "verification_report json_dumps a tag_db now =
     (let tag_data = tag_data_of a tag_db in
      if truthy (qr_cert_id a) then
        let result =
              (if tag_data \<noteq> None \<and> overall_valid a then ''AUTHENTIC''
               else if tag_data \<noteq> None \<and> \<not> overall_valid a then ''SUSPICIOUS''
               else if truthy (qr_cert_id a) \<and> tag_data = None then ''COUNTERFEIT''
               else ''SCAN_FAILED'');
            report_data =
              \<lparr>scan_time = now,
               report_cert_id = qr_cert_id a,
               qr_code = qr_detected a,
               guilloche = guilloche_detected a,
               grid = grid_detected a,
               corners = corners_detected a,
               verification_result = result\<rparr>
        in bind (json_dumps report_data) (\<lambda>report_json. Inr (Some (report_data, report_json)))
      else Inr None)"

section \<open>Generation functions\<close>

text \<open>The payload of \<open>generate_qr_layer\<close>: \<open>f"https://skern.com/verify?id={cert_id}"\<close>.\<close>

definition qr_url :: "string \<Rightarrow> string" where
  "qr_url cid = ''https://skern.com/verify?id='' @ cid"

subsection \<open>Doubles\<close>

text \<open>
  The floats of the guilloche parameters are modelled bit for bit.  A non-negative double
  is a pair \<open>(m, e)\<close> that stands for \<open>m / 2^e\<close>.  Every operation computes the exact result
  and rounds it to 53 significant bits, ties to even (\<open>round_53\<close>); the values that occur
  are non-negative and far from overflow and underflow.
  \<^item> \<open>float_of_int n\<close> is the conversion of a non-negative int in \<open>n * x\<close> and \<open>x * n\<close>;
  \<^item> \<open>fmul\<close> is \<open>*\<close> and \<open>fadd\<close> is \<open>+\<close> on floats;
  \<^item> \<open>truediv b d\<close> is \<open>b / d\<close> on ints with \<open>0 < d\<close> and \<open>b = 0\<close> or \<open>d \<le> 2048 * b\<close>: the
    quotient of \<open>b * 2^64\<close> by \<open>d\<close> has more than 53 bits, and one more bit below it
    records whether the division left a remainder, so the rounding is that of the exact
    quotient;
  \<^item> the literals are the doubles Python reads: \<open>0.475\<close> is \<open>0x3FDE666666666666\<close>, \<open>0.7\<close> is
    \<open>0x3FE6666666666666\<close>, \<open>0.3\<close> is \<open>0x3FD3333333333333\<close>, and \<open>math.pi\<close> is
    \<open>0x400921FB54442D18\<close>.
\<close>

type_synonym double = "nat \<times> nat"

definition val :: "double \<Rightarrow> real" where
  "val x = real (fst x) / 2 ^ snd x"

definition float_of_int :: "nat \<Rightarrow> double" where
  "float_of_int n = (round_53 n, 0)"

definition fmul :: "double \<Rightarrow> double \<Rightarrow> double" where
  "fmul x y = (round_53 (fst x * fst y), snd x + snd y)"

definition fadd :: "double \<Rightarrow> double \<Rightarrow> double" where
  "fadd x y =
     (let e = max (snd x) (snd y)
      in (round_53 (fst x * 2 ^ (e - snd x) + fst y * 2 ^ (e - snd y)), e))"

definition truediv :: "nat \<Rightarrow> nat \<Rightarrow> double" where
  "truediv b d =
     (let q = (b * 2 ^ 64) div d;
          sticky = (if (b * 2 ^ 64) mod d = 0 then 0 else 1)
      in (round_53 (2 * q + sticky), 65))"

definition literal_0_475 :: double where
  "literal_0_475 = (4278419646001971, 53)"

definition literal_0_7 :: double where
  "literal_0_7 = (3152519739159347, 52)"

definition literal_0_3 :: double where
  "literal_0_3 = (5404319552844595, 54)"

definition math_pi :: double where
  "math_pi = (884279719003555, 48)"

subsection \<open>Guilloche underlay: the parameters of curve \<open>i\<close>\<close>

text \<open>
  The body of \<open>for i in range(4)\<close> up to \<open>phase\<close>; \<open>params = list(secret_bytes)\<close> is the
  list of the byte values.  \<open>canvas_size\<close> is a natural number: the loop runs after
  \<open>Image.new\<close> has taken it as the size of the layer.  \<open>amp\<close> and \<open>phase\<close> hold the values
  of the doubles computed.
\<close>

record curve_params =
  amp :: real
  freq :: nat
  petals :: nat
  phase :: real

definition guilloche_curve_params :: "bytes \<Rightarrow> nat \<Rightarrow> nat \<Rightarrow> py_exn + curve_params" where
  "guilloche_curve_params secret_bytes canvas_size i =
     (let params = map unat secret_bytes;
          base = i * 4;
          max_radius = fmul (float_of_int canvas_size) literal_0_475
      in
      bind (py_index params (base mod 16)) (\<lambda>p_amp.
      bind (py_index params ((base + 1) mod 16)) (\<lambda>p_freq.
      bind (py_index params ((base + 2) mod 16)) (\<lambda>p_petals.
      bind (py_index params ((base + 3) mod 16)) (\<lambda>p_phase.
        Inr \<lparr>amp = val (fmul max_radius
                         (fadd literal_0_7 (fmul (truediv p_amp 255) literal_0_3))),
             freq = 8 + p_freq div 32,
             petals = 5 + p_petals div 32,
             phase = val (fmul (fmul (truediv p_phase 255) (float_of_int 2)) math_pi)\<rparr>)))))"

subsection \<open>Corner border layer: the dash walk\<close>








section \<open>Example data\<close>

definition example_libs :: "string \<Rightarrow> (unit, unit) libs" where
  "example_libs payload =
     \<lparr>np_array = (\<lambda>i. Inr ()),
      image_size = (\<lambda>i. (10, 10)),
      decode = (\<lambda>a. Inr [[0]]),
      decode_utf8 = (\<lambda>bs. Inr payload),
      cvtColor_RGB2HSV = (\<lambda>a. Inr (replicate 3 (90, 200, 200) @ replicate 97 (0, 0, 255))),
      cvtColor_RGB2GRAY = (\<lambda>a. Inr ()),
      Canny = (\<lambda>a. Inr ()),
      HoughLinesP = (\<lambda>a. Inr (Some (replicate 11 (0, 0, 50, 0)))),
      cornerHarris = (\<lambda>a. Inr ()),
      count_above_1pct_of_max = (\<lambda>a. Inr 4)\<rparr>"

definition failing_libs :: "(unit, unit) libs" where
  "failing_libs =
     \<lparr>np_array = (\<lambda>i. Inl (LibraryError ''TypeError'')),
      image_size = (\<lambda>i. (0, 0)),
      decode = (\<lambda>a. Inr []),
      decode_utf8 = (\<lambda>bs. Inl (LibraryError ''UnicodeDecodeError'')),
      cvtColor_RGB2HSV = (\<lambda>a. Inl (LibraryError ''cv2.error'')),
      cvtColor_RGB2GRAY = (\<lambda>a. Inl (LibraryError ''cv2.error'')),
      Canny = (\<lambda>a. Inl (LibraryError ''cv2.error'')),
      HoughLinesP = (\<lambda>a. Inr None),
      cornerHarris = (\<lambda>a. Inl (LibraryError ''cv2.error'')),
      count_above_1pct_of_max = (\<lambda>a. Inl (LibraryError ''ValueError''))\<rparr>"

definition boundary_libs :: "(unit, unit) libs" where
  "boundary_libs =
     (example_libs [])\<lparr>cvtColor_RGB2HSV :=
        (\<lambda>a. Inr (replicate 2 (90, 200, 200) @ replicate 98 (0, 0, 255)))\<rparr>"

definition example_bundle :: secret_bundle where
  "example_bundle =
     \<lparr>cert_id = ''CERT-B26A001-0123456789AB'', guilloche_id = replicate 16 0,
      border_id = replicate 16 0, serial_number = ''SK-000000000001''\<rparr>"

definition colliding_bundle :: secret_bundle where
  "colliding_bundle =
     \<lparr>cert_id = ''CERT-B26A001-0123456789AB'', guilloche_id = replicate 16 255,
      border_id = replicate 16 255, serial_number = ''SK-000000000002''\<rparr>"

definition example_db :: tag_database where
  "example_db = store_tag_in_db Map.empty example_bundle ''B26A001'' ''2026-01-01T00:00:00''"

definition key_a :: bytes where
  "key_a = replicate 16 0"

definition key_b :: bytes where
  "key_b = 255 # replicate 15 0"

text \<open>
  A grayscale photo of a tag: pyzbar reads the QR code from the two-dimensional array,
  and both colour conversions of OpenCV raise on it, so the guilloche, grid and corner
  detectors all return from their \<open>except\<close> branch.
\<close>

definition grayscale_libs :: "string \<Rightarrow> (unit, unit) libs" where
  "grayscale_libs payload =
     (example_libs payload)
       \<lparr>cvtColor_RGB2HSV := (\<lambda>a. Inl (LibraryError ''cv2.error'')),
        cvtColor_RGB2GRAY := (\<lambda>a. Inl (LibraryError ''cv2.error''))\<rparr>"

definition example_scan :: analysis where
  "example_scan =
     \<lparr>qr_detected = True, qr_cert_id = Some ''CERT-B26A001-FFFFFFFFFFFF'',
      guilloche_detected = False, grid_detected = False, corners_detected = False,
      overall_valid = False\<rparr>"

definition example_report :: report_data where
  "example_report =
     \<lparr>scan_time = ''2026-01-02T00:00:00'',
      report_cert_id = Some ''CERT-B26A001-FFFFFFFFFFFF'',
      qr_code = True, guilloche = False, grid = False, corners = False,
      verification_result = ''COUNTERFEIT''\<rparr>"

text \<open>
  \<open>json.dumps(report_data, indent=2)\<close> on example reports, whose texts hold no character
  that JSON escapes: TypeError when \<open>guilloche\<close> or \<open>corners\<close> is \<open>True\<close> (then the value
  is a \<open>numpy.bool_\<close>), the text otherwise.
\<close>

definition json_str :: "string \<Rightarrow> string" where
  "json_str s = [CHR 0x22] @ s @ [CHR 0x22]"

definition json_bool :: "bool \<Rightarrow> string" where
  "json_bool b = (if b then ''true'' else ''false'')"

definition json_text :: "report_data \<Rightarrow> string" where
  "json_text r = concat (map (\<lambda>l. l @ [CHR 0x0A])
     [''{'',
      ''  '' @ json_str ''scan_time'' @ '': '' @ json_str (scan_time r) @ '','',
      ''  '' @ json_str ''cert_id'' @ '': ''
         @ (case report_cert_id r of None \<Rightarrow> ''null'' | Some c \<Rightarrow> json_str c) @ '','',
      ''  '' @ json_str ''components_detected'' @ '': {'',
      ''    '' @ json_str ''qr_code'' @ '': '' @ json_bool (qr_code r) @ '','',
      ''    '' @ json_str ''guilloche'' @ '': '' @ json_bool (guilloche r) @ '','',
      ''    '' @ json_str ''grid'' @ '': '' @ json_bool (grid r) @ '','',
      ''    '' @ json_str ''corners'' @ '': '' @ json_bool (corners r),
      ''  },'',
      ''  '' @ json_str ''verification_result'' @ '': '' @ json_str (verification_result r)])
     @ ''}''"

definition example_json_dumps :: "report_data \<Rightarrow> py_exn + string" where
  "example_json_dumps r =
     (if guilloche r \<or> corners r then Inl (LibraryError ''TypeError'')
      else Inr (json_text r))"

section \<open>String operations\<close>

lemma split_from_skip: "split_from sep cur s k = split_from sep cur (drop k s) 0"
proof (induction s arbitrary: k)
  case Nil
  show ?case by simp
next
  case (Cons c cs)
  show ?case
  proof (cases k)
    case 0
    then show ?thesis by simp
  next
    case (Suc j)
    then show ?thesis using Cons.IH[of j] by simp
  qed
qed

lemma split_from_no_sep:
  "find_str sep s = None \<Longrightarrow> split_from sep cur s 0 = [rev cur @ s]"
  by (induction s arbitrary: cur) (auto split: if_splits)

lemma split_from_first:
  "find_str sep s = Some i \<Longrightarrow> sep \<noteq> [] \<Longrightarrow>
   split_from sep cur s 0 = (rev cur @ take i s) # split_from sep [] (drop (i + length sep) s) 0"
proof (induction s arbitrary: cur i)
  case Nil
  then show ?case by simp
next
  case (Cons c cs)
  show ?case
  proof (cases "prefix sep (c # cs)")
    case True
    with Cons.prems have "i = 0" by simp
    moreover have "split_from sep [] cs (length sep - 1)
                   = split_from sep [] (drop (length sep - 1) cs) 0"
      by (rule split_from_skip)
    moreover have "drop (length sep - 1) cs = drop (length sep) (c # cs)"
      using Cons.prems(2) by (cases sep) simp_all
    ultimately show ?thesis using True Cons.prems(2) by simp
  next
    case False
    with Cons.prems obtain j where j: "find_str sep cs = Some j" "i = Suc j"
      by auto
    from Cons.IH[OF j(1) Cons.prems(2), of "c # cur"] False j(2)
    show ?thesis by simp
  qed
qed

text \<open>
  \<open>py_split\<close> is Python's \<open>split\<close>: the text before the first occurrence of the separator,
  then the pieces of the text after it; the whole text when there is no occurrence.
\<close>

lemma py_split_first:
  "find_str sep s = Some i \<Longrightarrow> sep \<noteq> [] \<Longrightarrow>
   py_split s sep = take i s # py_split (drop (i + length sep) s) sep"
  by (simp add: py_split_def split_from_first)

lemma py_split_no_sep: "find_str sep s = None \<Longrightarrow> py_split s sep = [s]"
  by (simp add: py_split_def split_from_no_sep)

lemma py_split_empty: "py_split [] sep = [[]]"
  by (simp add: py_split_def)

lemma find_str_url: "find_str ''id='' (qr_url cid) = Some 25"
  by (simp add: qr_url_def)

section \<open>Detectors and analyzer\<close>

lemma try_except_Inr: "\<exists>r. try_except body d = Inr r"
  by (cases body) (simp_all add: try_except_def)

lemma try_except_Inl: "body = Inl e \<Longrightarrow> try_except body d = Inr d"
  by (simp add: try_except_def)

lemma detectors_return:
  obtains cid g gr co where
    "detect_qr_code L img = Inr cid" "detect_guilloche_pattern L img = Inr g"
    "detect_grid_pattern L img = Inr gr" "detect_corner_markers L img = Inr co"
  unfolding detect_qr_code_def detect_guilloche_pattern_def detect_grid_pattern_def
    detect_corner_markers_def
  by (meson try_except_Inr)

lemma analyze_tag_image_eq:
  assumes "detect_qr_code L img = Inr cid" "detect_guilloche_pattern L img = Inr g"
    "detect_grid_pattern L img = Inr gr" "detect_corner_markers L img = Inr co"
  shows "analyze_tag_image L img =
    Inr \<lparr>qr_detected = truthy cid,
         qr_cert_id = (if truthy cid then cid else None),
         guilloche_detected = g, grid_detected = gr, corners_detected = co,
         overall_valid = (truthy cid \<and> g \<and> gr \<and> co)\<rparr>"
  using assms by (simp add: analyze_tag_image_def bind_def initial_results_def Let_def)

text \<open>
  The analyzer never stores an empty identifier: in its result \<open>qr_cert_id\<close> is truthy
  exactly when it is not \<open>None\<close>, and exactly when \<open>qr_detected\<close> holds.
\<close>

lemma analyze_tag_image_cert_id:
  assumes "analyze_tag_image L img = Inr a"
  shows "qr_cert_id a \<noteq> Some [] \<and> (qr_cert_id a \<noteq> None) = qr_detected a
       \<and> truthy (qr_cert_id a) = qr_detected a"
proof -
  obtain cid g gr co where d:
    "detect_qr_code L img = Inr cid" "detect_guilloche_pattern L img = Inr g"
    "detect_grid_pattern L img = Inr gr" "detect_corner_markers L img = Inr co"
    by (rule detectors_return)
  from assms show ?thesis
    unfolding analyze_tag_image_eq[OF d] by (auto simp: truthy_def split: option.splits if_splits)
qed

lemma example_detectors:
  "detect_qr_code (example_libs (qr_url ''CERT-B26A001-0123456789AB'')) ()
     = Inr (Some ''CERT-B26A001-0123456789AB'')"
  "detect_grid_pattern (example_libs p) () = Inr True"
  "detect_corner_markers (example_libs p) () = Inr True"
  by (simp_all add: detect_qr_code_def detect_qr_code_body_def detect_grid_pattern_def
      detect_grid_pattern_body_def detect_corner_markers_def detect_corner_markers_body_def
      example_libs_def bind_def try_except_def contains_def qr_url_def py_split_def py_index_def)

section \<open>Verdict, registry, analyzer and QR round trip\<close>

text \<open>
  C1.  The verification status is a function of the analysis result and of the registry
  lookup of the extracted identifier, and the database is only read.  A registry hit with
  \<open>overall_valid\<close> gives AUTHENTIC, a registry hit without it SUSPICIOUS, an extracted
  identifier with no registry hit COUNTERFEIT, and no extracted identifier SCAN_FAILED.
  Each verdict is given in exactly its case, so the four cases are exhaustive and
  exclusive.  The code tests \<open>if analysis['qr_cert_id']\<close>, which is false for \<open>None\<close> and for
  the empty text; no result of \<open>analyze_tag_image\<close> holds the empty text, so for the
  analyzer's results "no identifier extracted" is \<open>qr_cert_id = None\<close>.
\<close>

theorem verdict_decision_table:
  "(verification_status a tag_db = AUTHENTIC \<longleftrightarrow>
      (\<exists>c r. qr_cert_id a = Some c \<and> c \<noteq> [] \<and> tag_db c = Some r) \<and> overall_valid a)
 \<and> (verification_status a tag_db = SUSPICIOUS \<longleftrightarrow>
      (\<exists>c r. qr_cert_id a = Some c \<and> c \<noteq> [] \<and> tag_db c = Some r) \<and> \<not> overall_valid a)
 \<and> (verification_status a tag_db = COUNTERFEIT \<longleftrightarrow>
      (\<exists>c. qr_cert_id a = Some c \<and> c \<noteq> [] \<and> tag_db c = None))
 \<and> (verification_status a tag_db = SCAN_FAILED \<longleftrightarrow>
      qr_cert_id a = None \<or> qr_cert_id a = Some [])
 \<and> (analyze_tag_image L img = Inr a \<longrightarrow> qr_cert_id a \<noteq> Some [])"
proof -
  have "analyze_tag_image L img = Inr a \<longrightarrow> qr_cert_id a \<noteq> Some []"
    using analyze_tag_image_cert_id[of L img a] by blast
  then show ?thesis
    by (auto simp: verification_status_def tag_data_of_def verify_tag_in_db_def truthy_def Let_def
             split: option.splits)
qed

theorem verdict_decision_table_witness:
  "analyze_tag_image failing_libs () = Inr initial_results
 \<and> qr_cert_id initial_results = None
 \<and> verification_status initial_results example_db = SCAN_FAILED
 \<and> verification_status (initial_results\<lparr>qr_cert_id := Some ''CERT-B26A001-0123456789AB''\<rparr>)
      example_db = SUSPICIOUS"
proof -
  have d: "detect_qr_code failing_libs () = Inr None"
    "detect_guilloche_pattern failing_libs () = Inr False"
    "detect_grid_pattern failing_libs () = Inr False"
    "detect_corner_markers failing_libs () = Inr False"
    by (simp_all add: detect_qr_code_def detect_qr_code_body_def detect_guilloche_pattern_def
        detect_guilloche_pattern_body_def detect_grid_pattern_def detect_grid_pattern_body_def
        detect_corner_markers_def detect_corner_markers_body_def failing_libs_def bind_def
        try_except_def)
  have a: "analyze_tag_image failing_libs () = Inr initial_results"
    unfolding analyze_tag_image_eq[OF d] by (simp add: truthy_def initial_results_def)
  from verdict_decision_table[of initial_results example_db failing_libs "()"]
    verdict_decision_table[of "initial_results\<lparr>qr_cert_id := Some ''CERT-B26A001-0123456789AB''\<rparr>"
      example_db failing_libs "()"] a
  show ?thesis
    by (simp add: initial_results_def example_db_def store_tag_in_db_def example_bundle_def)
qed

text \<open>
  C2 as stated fails: \<open>store_tag_in_db\<close> has no check for an existing key.  Storing a
  second bundle with the \<open>cert_id\<close> of a stored one succeeds and replaces the record.
\<close>

theorem store_existing_cert_id_counterexample:
  "cert_id colliding_bundle = cert_id example_bundle
 \<and> verify_tag_in_db example_db (cert_id example_bundle) \<noteq> None
 \<and> verify_tag_in_db
       (store_tag_in_db example_db colliding_bundle ''B26A001'' ''2026-01-02T00:00:00'')
       (cert_id example_bundle)
     \<noteq> verify_tag_in_db example_db (cert_id example_bundle)"
  by (simp add: example_db_def store_tag_in_db_def verify_tag_in_db_def example_bundle_def
      colliding_bundle_def)

text \<open>
  C2, amended.  \<open>store_tag_in_db\<close> always succeeds: afterwards the lookup of the bundle's
  \<open>cert_id\<close> gives the record built from this bundle, whatever was stored under that
  identifier before, and the lookup of every other identifier is unchanged.
\<close>

theorem store_tag_in_db_replaces:
  "verify_tag_in_db (store_tag_in_db tag_db b batch_code now) (cert_id b) =
     Some \<lparr>rec_batch_code = batch_code, rec_cert_id = cert_id b,
           rec_guilloche_id = hex (guilloche_id b), rec_border_id = hex (border_id b),
           rec_serial_number = serial_number b, rec_created_at = now, rec_authentic = True\<rparr>
 \<and> (\<forall>k. k \<noteq> cert_id b \<longrightarrow>
        verify_tag_in_db (store_tag_in_db tag_db b batch_code now) k = verify_tag_in_db tag_db k)"
  by (simp add: store_tag_in_db_def verify_tag_in_db_def)

theorem store_tag_in_db_replaces_witness:
  "''CERT-B26A001-FFFFFFFFFFFF'' \<noteq> cert_id colliding_bundle
 \<and> verify_tag_in_db
      (store_tag_in_db example_db colliding_bundle ''B26A001'' ''2026-01-02T00:00:00'')
      ''CERT-B26A001-FFFFFFFFFFFF''
    = verify_tag_in_db example_db ''CERT-B26A001-FFFFFFFFFFFF''
 \<and> verify_tag_in_db
      (store_tag_in_db example_db colliding_bundle ''B26A001'' ''2026-01-02T00:00:00'')
      (cert_id colliding_bundle)
    = Some \<lparr>rec_batch_code = ''B26A001'', rec_cert_id = ''CERT-B26A001-0123456789AB'',
            rec_guilloche_id = ''ffffffffffffffffffffffffffffffff'',
            rec_border_id = ''ffffffffffffffffffffffffffffffff'',
            rec_serial_number = ''SK-000000000002'',
            rec_created_at = ''2026-01-02T00:00:00'', rec_authentic = True\<rparr>"
proof -
  have h: "''CERT-B26A001-FFFFFFFFFFFF'' \<noteq> cert_id colliding_bundle"
    by (simp add: colliding_bundle_def)
  have x: "hex (replicate 16 255) = ''ffffffffffffffffffffffffffffffff''"
    by code_simp
  from store_tag_in_db_replaces[of example_db colliding_bundle "''B26A001''"
      "''2026-01-02T00:00:00''"] h
  show ?thesis
    by (simp add: colliding_bundle_def x)
qed

text \<open>
  C3.  \<open>analyze_tag_image\<close> returns for every image (and every behaviour of the
  libraries), and in its result \<open>overall_valid\<close> is the conjunction of the four detection
  flags and \<open>qr_cert_id\<close> is not \<open>None\<close> only if \<open>qr_detected\<close> holds.
\<close>

theorem analyze_tag_image_result:
  "\<exists>a. analyze_tag_image L img = Inr a
     \<and> overall_valid a =
         (qr_detected a \<and> guilloche_detected a \<and> grid_detected a \<and> corners_detected a)
     \<and> (qr_cert_id a \<noteq> None \<longrightarrow> qr_detected a)"
proof -
  obtain cid g gr co where d:
    "detect_qr_code L img = Inr cid" "detect_guilloche_pattern L img = Inr g"
    "detect_grid_pattern L img = Inr gr" "detect_corner_markers L img = Inr co"
    by (rule detectors_return)
  show ?thesis
    unfolding analyze_tag_image_eq[OF d] by simp
qed

theorem analyze_tag_image_result_witness:
  "\<exists>a. analyze_tag_image (example_libs (qr_url ''CERT-B26A001-0123456789AB'')) () = Inr a
     \<and> qr_cert_id a = Some ''CERT-B26A001-0123456789AB'' \<and> qr_detected a
     \<and> overall_valid a =
         (qr_detected a \<and> guilloche_detected a \<and> grid_detected a \<and> corners_detected a)"
proof -
  obtain g where g:
    "detect_guilloche_pattern (example_libs (qr_url ''CERT-B26A001-0123456789AB'')) () = Inr g"
    using detectors_return by metis
  have e: "analyze_tag_image (example_libs (qr_url ''CERT-B26A001-0123456789AB'')) () =
    Inr \<lparr>qr_detected = True, qr_cert_id = Some ''CERT-B26A001-0123456789AB'',
         guilloche_detected = g, grid_detected = True, corners_detected = True,
         overall_valid = g\<rparr>"
    unfolding analyze_tag_image_eq[OF example_detectors(1) g example_detectors(2,3)]
    by (simp add: truthy_def)
  from analyze_tag_image_result[of "example_libs (qr_url ''CERT-B26A001-0123456789AB'')" "()"]
  show ?thesis
    unfolding e by simp
qed

text \<open>
  C4.  For a \<open>cert_id\<close> that does not contain \<open>id=\<close>, the payload of \<open>generate_qr_layer\<close>
  contains \<open>id=\<close>, first at position 25, and the text after that occurrence is the
  \<open>cert_id\<close>; it is the element 1 of the payload's \<open>split('id=')\<close>, and the loop of
  \<open>detect_qr_code\<close> returns it for a decoded object with that payload.
\<close>

theorem qr_round_trip:
  assumes "\<not> contains ''id='' cid"
  shows "contains ''id='' (qr_url cid)
       \<and> find_str ''id='' (qr_url cid) = Some 25
       \<and> drop (25 + length ''id='') (qr_url cid) = cid
       \<and> py_index (py_split (qr_url cid) ''id='') 1 = Inr cid
       \<and> (decode_utf8 L obj = Inr (qr_url cid) \<longrightarrow>
            scan_decoded_objects L (obj # objs) = Inr (Some cid))"
proof -
  have n: "find_str ''id='' cid = None"
    using assms by (simp add: contains_def)
  have d: "drop (25 + length ''id='') (qr_url cid) = cid"
    by (simp add: qr_url_def)
  have s: "py_split (qr_url cid) ''id='' = [''https://skern.com/verify?'', cid]"
    using py_split_first[OF find_str_url, of cid] py_split_no_sep[OF n]
    by (simp add: d) (simp add: qr_url_def)
  have c: "contains ''id='' (qr_url cid)"
    by (simp add: contains_def find_str_url)
  show ?thesis
    using d by (simp add: c s py_index_def find_str_url)
qed

theorem qr_round_trip_witness:
  "\<not> contains ''id='' ''CERT-B26A001-0123456789AB''
   \<and> py_index (py_split (qr_url ''CERT-B26A001-0123456789AB'') ''id='') 1
       = Inr ''CERT-B26A001-0123456789AB''
   \<and> scan_decoded_objects (example_libs (qr_url ''CERT-B26A001-0123456789AB'')) [[0]]
       = Inr (Some ''CERT-B26A001-0123456789AB'')"
proof -
  have h: "\<not> contains ''id='' ''CERT-B26A001-0123456789AB''"
    by (simp add: contains_def)
  have u: "decode_utf8 (example_libs (qr_url ''CERT-B26A001-0123456789AB'')) [0]
           = Inr (qr_url ''CERT-B26A001-0123456789AB'')"
    by (simp add: example_libs_def)
  from qr_round_trip[OF h, of "example_libs (qr_url ''CERT-B26A001-0123456789AB'')" "[0]" "[]"] h u
  show ?thesis by blast
qed

section \<open>Guilloche threshold\<close>

text \<open>
  Rounding to 53 bits: numbers below \<open>2^53\<close> are exact; the result is at least the
  truncation, and exceeds the argument by at most half a unit in the last place, hence
  by at most the fraction \<open>2^-53\<close> of it.
\<close>

lemma round_53_small: "n < 2 ^ 53 \<Longrightarrow> round_53 n = n"
proof -
  assume "n < 2 ^ 53"
  then have "floorlog 2 n \<le> 53"
    by (intro floorlog_leI) simp_all
  then have "floorlog 2 n - 53 = 0"
    by simp
  then show ?thesis
    by (simp add: round_53_def)
qed

lemma round_53_lower: "(n div 2 ^ (floorlog 2 n - 53)) * 2 ^ (floorlog 2 n - 53) \<le> round_53 n"
  by (simp add: round_53_def Let_def)

lemma round_53_upper: "2 * round_53 n \<le> 2 * n + 2 ^ (floorlog 2 n - 53)"
proof -
  define k where "k = floorlog 2 n - 53"
  define q where "q = n div 2 ^ k"
  define r where "r = n mod 2 ^ k"
  have n: "n = q * 2 ^ k + r"
    unfolding q_def r_def by (rule div_mult_mod_eq[symmetric])
  show ?thesis
  proof (cases "2 ^ k < 2 * r \<or> (2 * r = 2 ^ k \<and> odd q)")
    case True
    then have "round_53 n = (q + 1) * 2 ^ k"
      by (simp add: round_53_def Let_def k_def q_def r_def)
    moreover from True have "2 ^ k \<le> 2 * r"
      by auto
    ultimately have "2 * round_53 n \<le> 2 * n + 2 ^ k"
      using n by (simp add: algebra_simps)
    then show ?thesis by (simp add: k_def)
  next
    case False
    then have "round_53 n = q * 2 ^ k"
      by (simp add: round_53_def Let_def k_def q_def r_def)
    then have "2 * round_53 n \<le> 2 * n + 2 ^ k"
      using n by simp
    then show ?thesis by (simp add: k_def)
  qed
qed

lemma round_53_error: "2 ^ 53 * round_53 n \<le> n * (2 ^ 53 + 1)"
proof (cases "n < 2 ^ 53")
  case True
  then show ?thesis by (simp add: round_53_small)
next
  case False
  define k where "k = floorlog 2 n - 53"
  from False have "2 ^ 53 \<le> n" by simp
  then have "Suc 53 \<le> floorlog 2 n"
    by (intro floorlog_ge_SucI) simp_all
  then have fl: "floorlog 2 n = k + 54 - 1" "0 < n"
    using False by (auto simp: k_def)
  have "(2::nat) ^ (floorlog 2 n - 1) \<le> n"
    using floorlog_bounds[of n 2] fl(2) by simp
  moreover have "floorlog 2 n - 1 = k + 52"
    using fl(1) by simp
  ultimately have kb: "2 ^ k * 2 ^ 52 \<le> n"
    by (simp add: power_add)
  have "2 ^ 53 * round_53 n = 2 ^ 52 * (2 * round_53 n)"
    by simp
  also have "\<dots> \<le> 2 ^ 52 * (2 * n + 2 ^ k)"
    using round_53_upper[of n] unfolding k_def by (intro mult_le_mono2)
  also have "\<dots> = 2 ^ 53 * n + 2 ^ k * 2 ^ 52"
    by (simp add: algebra_simps)
  also have "\<dots> \<le> 2 ^ 53 * n + n"
    using kb by simp
  finally show ?thesis
    by (simp add: algebra_simps)
qed

lemma round_53_ge_multiple:
  assumes "c * 2 ^ 58 \<le> n" and "n < 2 ^ 111"
  shows "c * 2 ^ 58 \<le> round_53 n"
proof -
  define k where "k = floorlog 2 n - 53"
  have "floorlog 2 n \<le> 111"
    using assms(2) by (intro floorlog_leI) simp_all
  then have k: "k \<le> 58"
    by (simp add: k_def)
  then have "(2::nat) ^ 58 = 2 ^ (58 - k) * 2 ^ k"
    by (simp flip: power_add)
  then have e: "c * 2 ^ 58 = (c * 2 ^ (58 - k)) * 2 ^ k"
    by simp
  have "c * 2 ^ (58 - k) \<le> n div 2 ^ k"
    using assms(1) unfolding e by (simp add: less_eq_div_iff_mult_less_eq)
  then have "(c * 2 ^ (58 - k)) * 2 ^ k \<le> (n div 2 ^ k) * 2 ^ k"
    by (rule mult_le_mono1)
  also have "\<dots> \<le> round_53 n"
    unfolding k_def by (rule round_53_lower)
  finally show ?thesis
    unfolding e .
qed

lemma mantissa_times_50: "50 * mantissa_0_02 = 2 ^ 58 + 6"
  by (simp add: mantissa_0_02_def)

lemma float_threshold_exact:
  assumes "tot \<le> 2 ^ 52"
  shows "float_mul_0_02 tot < real c \<longleftrightarrow> tot < 50 * c"
proof -
  define n where "n = tot * mantissa_0_02"
  define R where "R = round_53 n"
  have t: "round_53 tot = tot"
    using assms by (intro round_53_small) simp
  have n50: "50 * n = tot * 2 ^ 58 + 6 * tot"
    unfolding n_def using mantissa_times_50 by (simp add: algebra_simps)
  have f: "float_mul_0_02 tot < real c \<longleftrightarrow> R < c * 2 ^ 58"
  proof -
    have e: "float_mul_0_02 tot = real R / 2 ^ 58"
      by (simp add: float_mul_0_02_def t R_def n_def)
    have "float_mul_0_02 tot < real c \<longleftrightarrow> real R < real c * 2 ^ 58"
      unfolding e by (simp add: divide_less_eq)
    also have "real c * 2 ^ 58 = real (c * 2 ^ 58)"
      by simp
    finally show ?thesis
      by (simp only: of_nat_less_iff)
  qed
  show ?thesis
  proof (cases "tot < 50 * c")
    case True
    have "2 ^ 53 * R \<le> n * (2 ^ 53 + 1)"
      unfolding R_def by (rule round_53_error)
    then have "50 * (2 ^ 53 * R) \<le> (50 * n) * (2 ^ 53 + 1)"
      by simp
    then have "50 * (2 ^ 53 * R) \<le> (tot * 2 ^ 58 + 6 * tot) * (2 ^ 53 + 1)"
      unfolding n50 .
    then have "R < c * 2 ^ 58"
      using True assms by simp
    with True f show ?thesis by simp
  next
    case False
    then have "50 * c \<le> tot" by simp
    then have "50 * (c * 2 ^ 58) \<le> 50 * n"
      unfolding n50 by simp
    then have l: "c * 2 ^ 58 \<le> n"
      by simp
    have "50 * n < 50 * 2 ^ 111"
      unfolding n50 using assms by simp
    then have "n < 2 ^ 111"
      by simp
    with l have "c * 2 ^ 58 \<le> R"
      unfolding R_def by (rule round_53_ge_multiple)
    with False f show ?thesis by simp
  qed
qed

lemma count_positive_inRange:
  "count_positive (inRange hsv (lh, ls, lv) (uh, us, uv)) =
     length (filter (\<lambda>(h, s, v). lh \<le> unat h \<and> unat h \<le> uh \<and> ls \<le> unat s \<and> unat s \<le> us
                                  \<and> lv \<le> unat v \<and> unat v \<le> uv) hsv)"
  unfolding count_positive_def inRange_def
  by (induction hsv) (auto split: if_splits)

lemma byte_le_255: "unat (b :: byte) \<le> 255"
proof -
  have "unat b < 256" using unsigned_less[of b] by simp
  then show ?thesis by simp
qed

text \<open>
  C5.  The detector counts the pixels of the cyan band and those of the magenta band
  separately, and reports detection exactly when one of the two counts is strictly more
  than 2% of \<open>total_pixels\<close> (fifty times the count exceeds the pixel total); a count
  of exactly 2% is not detected.  The float product \<open>total_pixels * 0.02\<close> is modelled
  with its rounding; the statement is for images of at most \<open>2^52\<close> pixels.
\<close>

theorem guilloche_strict_threshold:
  assumes "np_array L img = Inr arr"
    and "cvtColor_RGB2HSV L arr = Inr hsv"
    and "image_size L img = (w, h)"
    and "w * h \<le> 2 ^ 52"
    and "cyan = length (filter (\<lambda>(hue, s, v). 80 \<le> unat hue \<and> unat hue \<le> 100
                                               \<and> 50 \<le> unat s \<and> 50 \<le> unat v) hsv)"
    and "magenta = length (filter (\<lambda>(hue, s, v). 140 \<le> unat hue \<and> unat hue \<le> 170
                                               \<and> 50 \<le> unat s \<and> 50 \<le> unat v) hsv)"
  shows "detect_guilloche_pattern L img = Inr (w * h < 50 * cyan \<or> w * h < 50 * magenta)
       \<and> (50 * cyan = w * h \<and> 50 * magenta \<le> w * h \<longrightarrow>
            detect_guilloche_pattern L img = Inr False)"
proof -
  have c: "count_positive (inRange hsv cyan_lower cyan_upper) = cyan"
    unfolding cyan_lower_def cyan_upper_def count_positive_inRange assms(5)
    by (simp add: byte_le_255)
  have m: "count_positive (inRange hsv magenta_lower magenta_upper) = magenta"
    unfolding magenta_lower_def magenta_upper_def count_positive_inRange assms(6)
    by (simp add: byte_le_255)
  have "detect_guilloche_pattern_body L img =
          Inr (float_mul_0_02 (w * h) < real cyan \<or> float_mul_0_02 (w * h) < real magenta)"
    by (simp add: detect_guilloche_pattern_body_def bind_def assms(1,2,3) Let_def c m)
  then have "detect_guilloche_pattern L img = Inr (w * h < 50 * cyan \<or> w * h < 50 * magenta)"
    by (simp add: detect_guilloche_pattern_def try_except_def float_threshold_exact[OF assms(4)])
  then show ?thesis
    by auto
qed

theorem guilloche_strict_threshold_witness:
  "detect_guilloche_pattern (example_libs []) () = Inr True
 \<and> detect_guilloche_pattern boundary_libs () = Inr False"
proof -
  have a: "np_array (example_libs []) () = Inr ()"
    "cvtColor_RGB2HSV (example_libs []) ()
       = Inr (replicate 3 (90, 200, 200) @ replicate 97 (0, 0, 255))"
    "image_size (example_libs []) () = (10, 10)"
    by (simp_all add: example_libs_def)
  have b: "np_array boundary_libs () = Inr ()"
    "cvtColor_RGB2HSV boundary_libs ()
       = Inr (replicate 2 (90, 200, 200) @ replicate 98 (0, 0, 255))"
    "image_size boundary_libs () = (10, 10)"
    by (simp_all add: boundary_libs_def example_libs_def)
  have s: "(10::nat) * 10 \<le> 2 ^ 52"
    by simp
  have ca: "(3::nat) = length (filter (\<lambda>(hue, s, v). 80 \<le> unat hue \<and> unat hue \<le> 100
              \<and> 50 \<le> unat s \<and> 50 \<le> unat v)
              (replicate 3 (90 :: byte, 200 :: byte, 200 :: byte) @ replicate 97 (0 :: byte, 0 :: byte, 255 :: byte)))"
    "(2::nat) = length (filter (\<lambda>(hue, s, v). 80 \<le> unat hue \<and> unat hue \<le> 100
              \<and> 50 \<le> unat s \<and> 50 \<le> unat v)
              (replicate 2 (90 :: byte, 200 :: byte, 200 :: byte) @ replicate 98 (0 :: byte, 0 :: byte, 255 :: byte)))"
    by (simp_all add: filter_replicate)
  have ma: "(0::nat) = length (filter (\<lambda>(hue, s, v). 140 \<le> unat hue \<and> unat hue \<le> 170
              \<and> 50 \<le> unat s \<and> 50 \<le> unat v)
              (replicate 3 (90 :: byte, 200 :: byte, 200 :: byte) @ replicate 97 (0 :: byte, 0 :: byte, 255 :: byte)))"
    "(0::nat) = length (filter (\<lambda>(hue, s, v). 140 \<le> unat hue \<and> unat hue \<le> 170
              \<and> 50 \<le> unat s \<and> 50 \<le> unat v)
              (replicate 2 (90 :: byte, 200 :: byte, 200 :: byte) @ replicate 98 (0 :: byte, 0 :: byte, 255 :: byte)))"
    by (simp_all add: filter_replicate)
  from guilloche_strict_threshold[OF a s ca(1) ma(1)] guilloche_strict_threshold[OF b s ca(2) ma(2)]
  show ?thesis
    by simp
qed

text \<open>
  C6.  Each of the four detectors returns a value for every image and every behaviour of
  the libraries it calls, and when its body raises, the value is \<open>None\<close> (QR) or \<open>False\<close>.
\<close>

theorem detectors_never_raise:
  "(\<exists>r. detect_qr_code L img = Inr r)
 \<and> (\<exists>b. detect_guilloche_pattern L img = Inr b)
 \<and> (\<exists>b. detect_grid_pattern L img = Inr b)
 \<and> (\<exists>b. detect_corner_markers L img = Inr b)
 \<and> (\<forall>e. detect_qr_code_body L img = Inl e \<longrightarrow> detect_qr_code L img = Inr None)
 \<and> (\<forall>e. detect_guilloche_pattern_body L img = Inl e \<longrightarrow>
        detect_guilloche_pattern L img = Inr False)
 \<and> (\<forall>e. detect_grid_pattern_body L img = Inl e \<longrightarrow> detect_grid_pattern L img = Inr False)
 \<and> (\<forall>e. detect_corner_markers_body L img = Inl e \<longrightarrow>
        detect_corner_markers L img = Inr False)"
  unfolding detect_qr_code_def detect_guilloche_pattern_def detect_grid_pattern_def
    detect_corner_markers_def
  by (simp add: try_except_Inr try_except_Inl)

theorem detectors_never_raise_witness:
  "detect_qr_code_body failing_libs () = Inl (LibraryError ''TypeError'')
 \<and> detect_qr_code failing_libs () = Inr None
 \<and> detect_guilloche_pattern_body failing_libs () = Inl (LibraryError ''TypeError'')
 \<and> detect_guilloche_pattern failing_libs () = Inr False
 \<and> detect_grid_pattern_body failing_libs () = Inl (LibraryError ''TypeError'')
 \<and> detect_grid_pattern failing_libs () = Inr False
 \<and> detect_corner_markers_body failing_libs () = Inl (LibraryError ''TypeError'')
 \<and> detect_corner_markers failing_libs () = Inr False"
proof -
  have b: "detect_qr_code_body failing_libs () = Inl (LibraryError ''TypeError'')"
    "detect_guilloche_pattern_body failing_libs () = Inl (LibraryError ''TypeError'')"
    "detect_grid_pattern_body failing_libs () = Inl (LibraryError ''TypeError'')"
    "detect_corner_markers_body failing_libs () = Inl (LibraryError ''TypeError'')"
    by (simp_all add: detect_qr_code_body_def detect_guilloche_pattern_body_def
        detect_grid_pattern_body_def detect_corner_markers_body_def failing_libs_def bind_def)
  from detectors_never_raise[of failing_libs "()"] b show ?thesis by simp
qed

lemma grayscale_detectors:
  "detect_qr_code (grayscale_libs (qr_url ''CERT-B26A001-FFFFFFFFFFFF'')) ()
     = Inr (Some ''CERT-B26A001-FFFFFFFFFFFF'')"
  "detect_guilloche_pattern (grayscale_libs p) () = Inr False"
  "detect_grid_pattern (grayscale_libs p) () = Inr False"
  "detect_corner_markers (grayscale_libs p) () = Inr False"
  by (simp_all add: detect_qr_code_def detect_qr_code_body_def detect_guilloche_pattern_def
      detect_guilloche_pattern_body_def detect_grid_pattern_def detect_grid_pattern_body_def
      detect_corner_markers_def detect_corner_markers_body_def grayscale_libs_def
      example_libs_def bind_def try_except_def contains_def qr_url_def py_split_def
      py_index_def)

text \<open>
  C9.  Whenever the download button is created, \<open>qr_cert_id\<close> is truthy, the text of the
  report is what \<open>json.dumps\<close> returned for the dict, and the \<open>verification_result\<close> of
  the dict is AUTHENTIC, SUSPICIOUS or COUNTERFEIT, never SCAN_FAILED.
\<close>

theorem report_never_scan_failed:
  assumes "verification_report json_dumps a tag_db now = Inr (Some (r, report_json))"
  shows "truthy (qr_cert_id a)
       \<and> report_cert_id r = qr_cert_id a
       \<and> json_dumps r = Inr report_json
       \<and> verification_result r \<in> {''AUTHENTIC'', ''SUSPICIOUS'', ''COUNTERFEIT''}
       \<and> verification_result r \<noteq> ''SCAN_FAILED''"
proof -
  have t: "truthy (qr_cert_id a)"
    using assms by (auto simp: verification_report_def Let_def split: if_splits)
  then show ?thesis
    using assms
    by (auto simp: verification_report_def Let_def bind_def split: sum.splits if_splits)
qed

theorem report_never_scan_failed_witness:
  "analyze_tag_image (grayscale_libs (qr_url ''CERT-B26A001-FFFFFFFFFFFF'')) ()
     = Inr example_scan
 \<and> verification_report example_json_dumps example_scan example_db ''2026-01-02T00:00:00''
     = Inr (Some (example_report, json_text example_report))
 \<and> truthy (qr_cert_id example_scan)
 \<and> example_json_dumps example_report = Inr (json_text example_report)
 \<and> verification_result example_report = ''COUNTERFEIT''
 \<and> verification_result example_report \<in> {''AUTHENTIC'', ''SUSPICIOUS'', ''COUNTERFEIT''}
 \<and> verification_result example_report \<noteq> ''SCAN_FAILED''"
proof -
  have s: "analyze_tag_image (grayscale_libs (qr_url ''CERT-B26A001-FFFFFFFFFFFF'')) ()
     = Inr example_scan"
    unfolding analyze_tag_image_eq[OF grayscale_detectors]
    by (simp add: truthy_def example_scan_def)
  have v: "verification_report example_json_dumps example_scan example_db
       ''2026-01-02T00:00:00'' = Inr (Some (example_report, json_text example_report))"
    by (simp add: verification_report_def Let_def bind_def example_json_dumps_def
        example_scan_def example_report_def truthy_def tag_data_of_def verify_tag_in_db_def
        example_db_def store_tag_in_db_def example_bundle_def)
  from report_never_scan_failed[OF v] s v show ?thesis
    by (simp add: example_report_def example_scan_def)
qed

text \<open>
  C10.  When the first decoded object's payload has nothing after its first \<open>id=\<close>, the QR
  detector returns the empty text, \<open>analyze_tag_image\<close> reports \<open>qr_detected = False\<close> and
  \<open>qr_cert_id = None\<close>, the database is not consulted (\<open>tag_data\<close> is \<open>None\<close> for every
  database), and the verdict is SCAN_FAILED.
\<close>

theorem empty_id_value_scan_failed:
  assumes "np_array L img = Inr arr"
    and "decode L arr = Inr (obj # objs)"
    and "decode_utf8 L obj = Inr payload"
    and "find_str ''id='' payload = Some i"
    and "i + 3 = length payload"
  shows "detect_qr_code L img = Inr (Some [])
       \<and> (\<exists>a. analyze_tag_image L img = Inr a \<and> \<not> qr_detected a \<and> qr_cert_id a = None
              \<and> tag_data_of a tag_db = None
              \<and> verification_status a tag_db = SCAN_FAILED)"
proof -
  have "py_split payload ''id='' = [take i payload, []]"
    using py_split_first[OF assms(4)] assms(5) by (simp add: py_split_empty)
  then have sc: "scan_decoded_objects L (obj # objs) = Inr (Some [])"
    using assms(3,4) by (simp add: contains_def py_index_def)
  have q: "detect_qr_code L img = Inr (Some [])"
    using assms(1,2) sc
    by (simp add: detect_qr_code_def detect_qr_code_body_def bind_def try_except_def)
  obtain cid g gr co where d:
    "detect_qr_code L img = Inr cid" "detect_guilloche_pattern L img = Inr g"
    "detect_grid_pattern L img = Inr gr" "detect_corner_markers L img = Inr co"
    by (rule detectors_return)
  from d(1) q have cid: "cid = Some []" by simp
  show ?thesis
    unfolding analyze_tag_image_eq[OF d]
    by (simp add: q cid truthy_def tag_data_of_def verification_status_def)
qed

theorem empty_id_value_scan_failed_witness:
  "find_str ''id='' ''https://skern.com/verify?id='' = Some 25
 \<and> detect_qr_code (example_libs ''https://skern.com/verify?id='') () = Inr (Some [])
 \<and> (\<exists>a. analyze_tag_image (example_libs ''https://skern.com/verify?id='') () = Inr a
        \<and> \<not> qr_detected a \<and> qr_cert_id a = None
        \<and> tag_data_of a (example_db([] \<mapsto> the (example_db ''CERT-B26A001-0123456789AB''))) = None
        \<and> verification_status a
             (example_db([] \<mapsto> the (example_db ''CERT-B26A001-0123456789AB''))) = SCAN_FAILED)"
proof -
  have f: "find_str ''id='' ''https://skern.com/verify?id='' = Some 25"
    by simp
  have l: "25 + 3 = length ''https://skern.com/verify?id=''"
    by simp
  have a: "np_array (example_libs ''https://skern.com/verify?id='') () = Inr ()"
    "decode (example_libs ''https://skern.com/verify?id='') () = Inr ([0] # [])"
    "decode_utf8 (example_libs ''https://skern.com/verify?id='') [0]
       = Inr ''https://skern.com/verify?id=''"
    by (simp_all add: example_libs_def)
  from empty_id_value_scan_failed[OF a f l] f
  show ?thesis by blast
qed

section \<open>Guilloche curve parameters\<close>

subsection \<open>Rounding to 53 bits\<close>

lemma round_53_shift_bounds:
  assumes "0 < floorlog 2 n - 53"
  shows "2 ^ (floorlog 2 n - 53) * 2 ^ 52 \<le> n" and "n < 2 ^ (floorlog 2 n - 53) * 2 ^ 53"
proof -
  define k where "k = floorlog 2 n - 53"
  from assms have fl: "floorlog 2 n = k + 53" and pos: "0 < n"
    by (auto simp: k_def floorlog_def split: if_splits)
  have "(2::nat) ^ (floorlog 2 n - 1) \<le> n" "n < 2 ^ floorlog 2 n"
    using floorlog_bounds[of n 2] pos by simp_all
  then show "2 ^ (floorlog 2 n - 53) * 2 ^ 52 \<le> n" "n < 2 ^ (floorlog 2 n - 53) * 2 ^ 53"
    unfolding fl by (simp_all add: power_add)
qed

lemma round_53_shift_zero:
  assumes "floorlog 2 n - 53 = 0"
  shows "n < 2 ^ 53"
proof -
  from assms have "floorlog 2 n \<le> 53" by simp
  then show ?thesis by (rule floorlog_leD) simp
qed

lemma round_53_quotient_less: "n div 2 ^ (floorlog 2 n - 53) < 2 ^ 53"
proof (cases "floorlog 2 n - 53 = 0")
  case True
  then show ?thesis using round_53_shift_zero[OF True] by simp
next
  case False
  then have "n < 2 ^ (floorlog 2 n - 53) * 2 ^ 53"
    by (intro round_53_shift_bounds) simp
  then show ?thesis
    by (simp add: less_mult_imp_div_less mult.commute)
qed

lemma round_53_choice:
  "round_53 n = (n div 2 ^ (floorlog 2 n - 53)) * 2 ^ (floorlog 2 n - 53)
   \<or> round_53 n = (n div 2 ^ (floorlog 2 n - 53) + 1) * 2 ^ (floorlog 2 n - 53)"
  by (simp add: round_53_def Let_def)

lemma round_53_exact:
  assumes "n mod 2 ^ (floorlog 2 n - 53) = 0"
  shows "round_53 n = n"
proof -
  have "n div 2 ^ (floorlog 2 n - 53) * 2 ^ (floorlog 2 n - 53) + n mod 2 ^ (floorlog 2 n - 53) = n"
    by (rule div_mult_mod_eq)
  with assms have "n div 2 ^ (floorlog 2 n - 53) * 2 ^ (floorlog 2 n - 53) = n"
    by simp
  with assms show ?thesis
    by (simp add: round_53_def Let_def)
qed

lemma round_53_representable: "\<exists>c j. round_53 n = c * 2 ^ j \<and> c \<le> 2 ^ 53"
  using round_53_choice[of n] round_53_quotient_less[of n]
  by (metis Suc_eq_plus1 Suc_leI less_imp_le_nat)

lemma round_53_error_lower: "n * (2 ^ 53 - 1) \<le> 2 ^ 53 * round_53 n"
proof (cases "n < 2 ^ 53")
  case True
  then show ?thesis by (simp add: round_53_small)
next
  case False
  define k where "k = floorlog 2 n - 53"
  define q where "q = n div 2 ^ k"
  define r where "r = n mod 2 ^ k"
  have n: "n = q * 2 ^ k + r"
    unfolding q_def r_def by (rule div_mult_mod_eq[symmetric])
  from False have "0 < k"
    using round_53_shift_zero[of n] unfolding k_def by fastforce
  then have kb: "2 ^ k * 2 ^ 52 \<le> n"
    unfolding k_def by (rule round_53_shift_bounds)
  have "2 * n \<le> 2 * round_53 n + 2 ^ k"
  proof (cases "2 ^ k < 2 * r \<or> (2 * r = 2 ^ k \<and> odd q)")
    case True
    then have "round_53 n = (q + 1) * 2 ^ k"
      by (simp add: round_53_def Let_def k_def q_def r_def)
    moreover have "r < 2 ^ k"
      unfolding r_def by simp
    ultimately show ?thesis
      using n by (simp add: algebra_simps)
  next
    case False
    then have "round_53 n = q * 2 ^ k" and "2 * r \<le> 2 ^ k"
      by (auto simp: round_53_def Let_def k_def q_def r_def)
    then show ?thesis
      using n by simp
  qed
  then have "2 ^ 52 * (2 * n) \<le> 2 ^ 52 * (2 * round_53 n + 2 ^ k)"
    by (rule mult_le_mono2)
  then have "2 ^ 53 * n \<le> 2 ^ 53 * round_53 n + 2 ^ k * 2 ^ 52"
    by (simp add: algebra_simps)
  then have "2 ^ 53 * n \<le> 2 ^ 53 * round_53 n + n"
    using kb by linarith
  then show ?thesis
    by (simp add: algebra_simps)
qed

lemma round_53_ge_representable:
  assumes "c \<le> 2 ^ 53" and "c * 2 ^ j \<le> n"
  shows "c * 2 ^ j \<le> round_53 n"
proof -
  define k where "k = floorlog 2 n - 53"
  have lo: "(n div 2 ^ k) * 2 ^ k \<le> round_53 n"
    unfolding k_def by (rule round_53_lower)
  show ?thesis
  proof (cases "k \<le> j")
    case True
    then have "(2::nat) ^ j = 2 ^ (j - k) * 2 ^ k"
      by (simp flip: power_add)
    then have e: "c * 2 ^ j = (c * 2 ^ (j - k)) * 2 ^ k"
      by simp
    have "c * 2 ^ (j - k) \<le> n div 2 ^ k"
      using assms(2) unfolding e by (simp add: less_eq_div_iff_mult_less_eq)
    then have "(c * 2 ^ (j - k)) * 2 ^ k \<le> (n div 2 ^ k) * 2 ^ k"
      by (rule mult_le_mono1)
    with lo show ?thesis unfolding e by linarith
  next
    case False
    then have "0 < k" and jk: "j + 1 \<le> k"
      by simp_all
    then have kb: "2 ^ k * 2 ^ 52 \<le> n"
      unfolding k_def by (intro round_53_shift_bounds)
    have "(2::nat) ^ 52 \<le> n div 2 ^ k"
      using kb by (simp add: less_eq_div_iff_mult_less_eq mult.commute)
    then have "2 ^ 52 * 2 ^ k \<le> (n div 2 ^ k) * 2 ^ k"
      by (rule mult_le_mono1)
    moreover have "c * 2 ^ j \<le> 2 ^ 53 * 2 ^ j"
      using assms(1) by (rule mult_le_mono1)
    moreover have "(2::nat) ^ 53 * 2 ^ j = 2 ^ 52 * 2 ^ (j + 1)"
      by simp
    moreover have "(2::nat) ^ (j + 1) \<le> 2 ^ k"
      using jk by (intro power_increasing) simp_all
    then have "(2::nat) ^ 52 * 2 ^ (j + 1) \<le> 2 ^ 52 * 2 ^ k"
      by (rule mult_le_mono2)
    ultimately show ?thesis
      using lo by linarith
  qed
qed

lemma round_53_le_representable:
  assumes "c \<le> 2 ^ 53" and "n \<le> c * 2 ^ j"
  shows "round_53 n \<le> c * 2 ^ j"
proof -
  define k where "k = floorlog 2 n - 53"
  define q where "q = n div 2 ^ k"
  define r where "r = n mod 2 ^ k"
  have n: "n = q * 2 ^ k + r"
    unfolding q_def r_def by (rule div_mult_mod_eq[symmetric])
  have up: "round_53 n \<le> (q + 1) * 2 ^ k"
    using round_53_choice[of n] unfolding k_def q_def by auto
  show ?thesis
  proof (cases "r = 0")
    case True
    then have "round_53 n = n"
      unfolding r_def k_def by (rule round_53_exact)
    with assms(2) show ?thesis by simp
  next
    case False
    show ?thesis
    proof (cases "k \<le> j")
      case True
      then have "(2::nat) ^ j = 2 ^ (j - k) * 2 ^ k"
        by (simp flip: power_add)
      then have e: "c * 2 ^ j = (c * 2 ^ (j - k)) * 2 ^ k"
        by simp
      have "q * 2 ^ k < (c * 2 ^ (j - k)) * 2 ^ k"
        using n False assms(2) unfolding e by linarith
      then have "q < c * 2 ^ (j - k)"
        by simp
      then have "q + 1 \<le> c * 2 ^ (j - k)"
        by simp
      then have "(q + 1) * 2 ^ k \<le> (c * 2 ^ (j - k)) * 2 ^ k"
        by (rule mult_le_mono1)
      with up show ?thesis unfolding e by linarith
    next
      case k: False
      then have "0 < k" and jk: "j + 1 \<le> k"
        by simp_all
      then have kb: "2 ^ k * 2 ^ 52 \<le> n"
        unfolding k_def by (intro round_53_shift_bounds)
      have "n \<le> c * 2 ^ j"
        by (rule assms(2))
      also have "\<dots> \<le> 2 ^ 53 * 2 ^ j"
        using assms(1) by (rule mult_le_mono1)
      also have "\<dots> = 2 ^ k' * 2 ^ (j + 1)" if "k' = 52" for k' :: nat
        using that by simp
      finally have "n \<le> 2 ^ 52 * 2 ^ (j + 1)"
        by simp
      also have "(2::nat) ^ (j + 1) \<le> 2 ^ k"
        using jk by (intro power_increasing) simp_all
      finally have "n \<le> 2 ^ k * 2 ^ 52"
        by (simp add: mult.commute)
      from this kb have "n = 2 ^ k * 2 ^ 52"
        by (rule order.antisym)
      then have "r = 0"
        unfolding r_def by simp
      with False show ?thesis by simp
    qed
  qed
qed

subsection \<open>A lower bound of \<open>pi\<close>\<close>

text \<open>
  The double \<open>math.pi\<close> lies below \<open>pi\<close>: the cosine of its half is positive, by the
  Taylor polynomial of degree 22 with its remainder.
\<close>

lemma cos_lower:
  assumes "0 < x"
  shows "(\<Sum>m<24. cos_coeff m * x ^ m) - x ^ 24 / fact 24 \<le> cos x"
proof -
  obtain t where t: "cos x = (\<Sum>m<24. cos_coeff m * x ^ m) + (cos (t + 1/2 * real 24 * pi) / fact 24) * x ^ 24"
    using Maclaurin_cos_expansion2[OF assms, of 24] by auto
  have "- 1 \<le> cos (t + 1/2 * real 24 * pi)"
    by (rule cos_ge_minus_one)
  then have "- 1 / fact 24 \<le> cos (t + 1/2 * real 24 * pi) / fact 24"
    by (intro divide_right_mono) simp_all
  moreover have "0 \<le> x ^ 24"
    using assms by simp
  ultimately have "(- 1 / fact 24) * x ^ 24 \<le> (cos (t + 1/2 * real 24 * pi) / fact 24) * x ^ 24"
    by (rule mult_right_mono)
  then show ?thesis
    unfolding t by simp
qed

lemma sum_24: "(\<Sum>m<24. f m) = (f :: nat \<Rightarrow> real) 0 + f 1 + f 2 + f 3 + f 4 + f 5 + f 6 + f 7 + f 8 + f 9 + f 10 + f 11
   + f 12 + f 13 + f 14 + f 15 + f 16 + f 17 + f 18 + f 19 + f 20 + f 21 + f 22 + f 23"
  by (simp add: lessThan_nat_numeral lessThan_Suc)

lemma cos_series_poly:
  fixes y :: real
  shows "((\<Sum>m<24. cos_coeff m * y ^ m) - y ^ 24 / fact 24) * fact 24
         = 620448401733239439360000 - 310224200866619719680000 * y ^ 2 + 25852016738884976640000 * y ^ 4 - 861733891296165888000 * y ^ 6 + 15388105201717248000 * y ^ 8 - 170978946685747200 * y ^ 10 + 1295295050649600 * y ^ 12 - 7117005772800 * y ^ 14 + 29654190720 * y ^ 16 - 96909120 * y ^ 18 + 255024 * y ^ 20 - 552 * y ^ 22 - y ^ 24"
  unfolding sum_24 by (simp add: cos_coeff_def fact_numeral algebra_simps)

lemma cos_math_pi_half_pos: "0 < cos (884279719003555 / 2 ^ 49 :: real)"
proof -
  define y :: real where "y = 884279719003555 / 2 ^ 49"
  define z where "z = y\<^sup>2"
  have z: "z = 781950621441006189802102638025 / 2 ^ 98"
    by (simp add: z_def y_def power_divide)
  have z0: "0 \<le> z"
    by (simp add: z_def)
  define W11 where "W11 = 552 + z"
  define W10 where "W10 = 255024 - z * W11"
  define W9 where "W9 = 96909120 - z * W10"
  define W8 where "W8 = 29654190720 - z * W9"
  define W7 where "W7 = 7117005772800 - z * W8"
  define W6 where "W6 = 1295295050649600 - z * W7"
  define W5 where "W5 = 170978946685747200 - z * W6"
  define W4 where "W4 = 15388105201717248000 - z * W5"
  define W3 where "W3 = 861733891296165888000 - z * W4"
  define W2 where "W2 = 25852016738884976640000 - z * W3"
  define W1 where "W1 = 310224200866619719680000 - z * W2"
  define W0 where "W0 = 620448401733239439360000 - z * W1"
  have b11: "W11 \<le> 4542197 / 8192"
    unfolding W11_def z by simp
  have b10: "1038974593 / 4096 \<le> W10"
  proof -
    have "z * W11 \<le> z * (4542197 / 8192)"
      using b11 z0 by (rule mult_left_mono)
    moreover have "1038974593 / 4096 \<le> 255024 - z * (4542197 / 8192)"
      unfolding z by simp
    ultimately show ?thesis
      unfolding W10_def by linarith
  qed
  have b9: "W9 \<le> 3155009507729 / 32768"
  proof -
    have "z * (1038974593 / 4096) \<le> z * W10"
      using b10 z0 by (rule mult_left_mono)
    moreover have "96909120 - z * (1038974593 / 4096) \<le> 3155009507729 / 32768"
      unfolding z by simp
    ultimately show ?thesis
      unfolding W9_def by linarith
  qed
  have b8: "1927847695164439 / 65536 \<le> W8"
  proof -
    have "z * W9 \<le> z * (3155009507729 / 32768)"
      using b9 z0 by (rule mult_left_mono)
    moreover have "1927847695164439 / 65536 \<le> 29654190720 - z * (3155009507729 / 32768)"
      unfolding z by simp
    ultimately show ?thesis
      unfolding W8_def by linarith
  qed
  have b7: "W7 \<le> 230831658401007285 / 32768"
  proof -
    have "z * (1927847695164439 / 65536) \<le> z * W8"
      using b8 z0 by (rule mult_left_mono)
    moreover have "7117005772800 - z * (1927847695164439 / 65536) \<le> 230831658401007285 / 32768"
      unfolding z by simp
    ultimately show ?thesis
      unfolding W7_def by linarith
  qed
  have b6: "20937336965884879307 / 16384 \<le> W6"
  proof -
    have "z * W7 \<le> z * (230831658401007285 / 32768)"
      using b7 z0 by (rule mult_left_mono)
    moreover have "20937336965884879307 / 16384 \<le> 1295295050649600 - z * (230831658401007285 / 32768)"
      unfolding z by simp
    ultimately show ?thesis
      unfolding W6_def by linarith
  qed
  have b5: "W5 \<le> 5499316508465770096065 / 32768"
  proof -
    have "z * (20937336965884879307 / 16384) \<le> z * W6"
      using b6 z0 by (rule mult_left_mono)
    moreover have "170978946685747200 - z * (20937336965884879307 / 16384) \<le> 5499316508465770096065 / 32768"
      unfolding z by simp
    ultimately show ?thesis
      unfolding W5_def by linarith
  qed
  have b4: "981336823292273002230921 / 65536 \<le> W4"
  proof -
    have "z * W5 \<le> z * (5499316508465770096065 / 32768)"
      using b5 z0 by (rule mult_left_mono)
    moreover have "981336823292273002230921 / 65536 \<le> 15388105201717248000 - z * (5499316508465770096065 / 32768)"
      unfolding z by simp
    ultimately show ?thesis
      unfolding W4_def by linarith
  qed
  have b3: "W3 \<le> 27026620371228205432965869 / 32768"
  proof -
    have "z * (981336823292273002230921 / 65536) \<le> z * W4"
      using b4 z0 by (rule mult_left_mono)
    moreover have "861733891296165888000 - z * (981336823292273002230921 / 65536) \<le> 27026620371228205432965869 / 32768"
      unfolding z by simp
    ultimately show ?thesis
      unfolding W3_def by linarith
  qed
  have b2: "780433371659171616842384475 / 32768 \<le> W2"
  proof -
    have "z * W3 \<le> z * (27026620371228205432965869 / 32768)"
      using b3 z0 by (rule mult_left_mono)
    moreover have "780433371659171616842384475 / 32768 \<le> 25852016738884976640000 - z * (27026620371228205432965869 / 32768)"
      unfolding z by simp
    ultimately show ?thesis
      unfolding W2_def by linarith
  qed
  have b1: "W1 \<le> 16479568908152606594314995041 / 65536"
  proof -
    have "z * (780433371659171616842384475 / 32768) \<le> z * W2"
      using b2 z0 by (rule mult_left_mono)
    moreover have "310224200866619719680000 - z * (780433371659171616842384475 / 32768) \<le> 16479568908152606594314995041 / 65536"
      unfolding z by simp
    ultimately show ?thesis
      unfolding W1_def by linarith
  qed
  have b0: "1241575013385 / 32768 \<le> W0"
  proof -
    have "z * W1 \<le> z * (16479568908152606594314995041 / 65536)"
      using b1 z0 by (rule mult_left_mono)
    moreover have "1241575013385 / 32768 \<le> 620448401733239439360000 - z * (16479568908152606594314995041 / 65536)"
      unfolding z by simp
    ultimately show ?thesis
      unfolding W0_def by linarith
  qed
  have "620448401733239439360000 - 310224200866619719680000 * y ^ 2 + 25852016738884976640000 * y ^ 4 - 861733891296165888000 * y ^ 6 + 15388105201717248000 * y ^ 8 - 170978946685747200 * y ^ 10 + 1295295050649600 * y ^ 12 - 7117005772800 * y ^ 14 + 29654190720 * y ^ 16 - 96909120 * y ^ 18 + 255024 * y ^ 20 - 552 * y ^ 22 - y ^ 24 = W0"
    unfolding W0_def W1_def W2_def W3_def W4_def W5_def W6_def W7_def W8_def W9_def W10_def W11_def z_def by algebra
  with b0 have "0 < 620448401733239439360000 - 310224200866619719680000 * y ^ 2 + 25852016738884976640000 * y ^ 4 - 861733891296165888000 * y ^ 6 + 15388105201717248000 * y ^ 8 - 170978946685747200 * y ^ 10 + 1295295050649600 * y ^ 12 - 7117005772800 * y ^ 14 + 29654190720 * y ^ 16 - 96909120 * y ^ 18 + 255024 * y ^ 20 - 552 * y ^ 22 - y ^ 24"
    by simp
  then have "0 < ((\<Sum>m<24. cos_coeff m * y ^ m) - y ^ 24 / fact 24) * fact 24"
    unfolding cos_series_poly .
  then have "0 < (\<Sum>m<24. cos_coeff m * y ^ m) - y ^ 24 / fact 24"
    by (simp add: zero_less_mult_iff)
  also have "\<dots> \<le> cos y"
    by (rule cos_lower) (simp add: y_def)
  finally show ?thesis
    unfolding y_def .
qed

lemma math_pi_less_pi: "884279719003555 / 2 ^ 48 < pi"
proof -
  define x :: real where "x = 884279719003555 / 2 ^ 49"
  have x: "x \<le> 2"
    by (simp add: x_def)
  have c: "0 < cos x"
    unfolding x_def by (rule cos_math_pi_half_pos)
  have "x < pi / 2"
  proof (rule ccontr)
    assume "\<not> x < pi / 2"
    then have "pi / 2 \<le> x"
      by simp
    moreover have "x \<le> pi"
      using x pi_ge_two by linarith
    ultimately have "cos x \<le> cos (pi / 2)"
      by (intro cos_monotone_0_pi_le) simp_all
    with c show False
      by simp
  qed
  then show ?thesis
    by (simp add: x_def)
qed

subsection \<open>Double arithmetic\<close>

lemma val_nonneg: "0 \<le> val x"
  by (simp add: val_def)

lemma fmul_commute: "fmul x y = fmul y x"
  by (simp add: fmul_def mult.commute add.commute)

lemma round_53_real_upper: "real (round_53 n) \<le> (1 + 1 / 2 ^ 53) * real n"
proof -
  have "real (2 ^ 53 * round_53 n) \<le> real (n * (2 ^ 53 + 1))"
    using round_53_error[of n] by (rule of_nat_mono)
  then have "2 ^ 53 * real (round_53 n) \<le> real n * (2 ^ 53 + 1)"
    by simp
  then show ?thesis
    by (simp add: field_simps)
qed

lemma round_53_real_lower: "(1 - 1 / 2 ^ 53) * real n \<le> real (round_53 n)"
proof -
  have "real (n * (2 ^ 53 - 1)) \<le> real (2 ^ 53 * round_53 n)"
    using round_53_error_lower[of n] by (rule of_nat_mono)
  then have "real n * (2 ^ 53 - 1) \<le> 2 ^ 53 * real (round_53 n)"
    by (simp add: of_nat_diff)
  then show ?thesis
    by (simp add: field_simps)
qed

lemma val_fmul: "val x * val y = real (fst x * fst y) / 2 ^ (snd x + snd y)"
  by (simp add: val_def power_add)

lemma fmul_upper: "val (fmul x y) \<le> (1 + 1 / 2 ^ 53) * (val x * val y)"
proof -
  have "val (fmul x y) = real (round_53 (fst x * fst y)) / 2 ^ (snd x + snd y)"
    by (simp add: val_def fmul_def)
  also have "\<dots> \<le> ((1 + 1 / 2 ^ 53) * real (fst x * fst y)) / 2 ^ (snd x + snd y)"
    using round_53_real_upper[of "fst x * fst y"] by (intro divide_right_mono) simp_all
  also have "\<dots> = (1 + 1 / 2 ^ 53) * (val x * val y)"
    unfolding val_fmul by simp
  finally show ?thesis .
qed

lemma fmul_lower: "(1 - 1 / 2 ^ 53) * (val x * val y) \<le> val (fmul x y)"
proof -
  have "(1 - 1 / 2 ^ 53) * (val x * val y)
        = ((1 - 1 / 2 ^ 53) * real (fst x * fst y)) / 2 ^ (snd x + snd y)"
    unfolding val_fmul by simp
  also have "\<dots> \<le> real (round_53 (fst x * fst y)) / 2 ^ (snd x + snd y)"
    using round_53_real_lower[of "fst x * fst y"] by (intro divide_right_mono) simp_all
  also have "\<dots> = val (fmul x y)"
    by (simp add: val_def fmul_def)
  finally show ?thesis .
qed

text \<open>A value of at most \<open>2^i\<close>, in terms of the pair.\<close>

lemma val_le_power:
  assumes "val y \<le> 2 ^ i"
  shows "fst y \<le> 2 ^ i * 2 ^ snd y"
proof -
  have "real (fst y) \<le> 2 ^ i * 2 ^ snd y"
    using assms by (simp add: val_def field_simps)
  then have "real (fst y) \<le> real (2 ^ i * 2 ^ snd y)"
    by simp
  then show ?thesis
    by (simp only: of_nat_le_iff)
qed

text \<open>Multiplying a double by a factor of at most \<open>2^i\<close> gives at most \<open>2^i\<close> times it.\<close>

lemma fmul_le:
  assumes "fst x = c * 2 ^ j" and "c \<le> 2 ^ 53" and "val y \<le> 2 ^ i"
  shows "val (fmul x y) \<le> 2 ^ i * val x"
proof -
  have "fst x * fst y \<le> fst x * (2 ^ i * 2 ^ snd y)"
    using val_le_power[OF assms(3)] by (rule mult_le_mono2)
  also have "\<dots> = c * 2 ^ (j + i + snd y)"
    unfolding assms(1) by (simp add: power_add)
  finally have "round_53 (fst x * fst y) \<le> c * 2 ^ (j + i + snd y)"
    using assms(2) by (intro round_53_le_representable)
  also have "\<dots> = fst x * (2 ^ i * 2 ^ snd y)"
    unfolding assms(1) by (simp add: power_add)
  finally have "real (round_53 (fst x * fst y)) \<le> real (fst x * (2 ^ i * 2 ^ snd y))"
    by (rule of_nat_mono)
  then have "real (round_53 (fst x * fst y)) / 2 ^ (snd x + snd y)
             \<le> real (fst x * (2 ^ i * 2 ^ snd y)) / 2 ^ (snd x + snd y)"
    by (intro divide_right_mono) simp_all
  then show ?thesis
    by (simp add: val_def fmul_def power_add mult.commute)
qed

lemma fadd_value: "val x + val y
   = real (fst x * 2 ^ (max (snd x) (snd y) - snd x) + fst y * 2 ^ (max (snd x) (snd y) - snd y))
     / 2 ^ max (snd x) (snd y)"
proof -
  define e where "e = max (snd x) (snd y)"
  have x: "(2::real) ^ e = 2 ^ (e - snd x) * 2 ^ snd x"
    unfolding e_def by (simp flip: power_add)
  have y: "(2::real) ^ e = 2 ^ (e - snd y) * 2 ^ snd y"
    unfolding e_def by (simp flip: power_add)
  have "real (fst x * 2 ^ (e - snd x)) / 2 ^ e = val x"
    unfolding val_def by (subst x) simp
  moreover have "real (fst y * 2 ^ (e - snd y)) / 2 ^ e = val y"
    unfolding val_def by (subst y) simp
  ultimately show ?thesis
    unfolding e_def by (simp add: add_divide_distrib)
qed

lemma fadd_le_one:
  assumes "val x + val y \<le> 1"
  shows "val (fadd x y) \<le> 1"
proof -
  define e where "e = max (snd x) (snd y)"
  define n where "n = fst x * 2 ^ (e - snd x) + fst y * 2 ^ (e - snd y)"
  have "real n / 2 ^ e \<le> 1"
    using assms unfolding fadd_value n_def e_def .
  then have "real n \<le> real (2 ^ e)"
    by (simp add: field_simps)
  then have "n \<le> 2 ^ e"
    by (simp only: of_nat_le_iff)
  then have "n \<le> 1 * 2 ^ e"
    by simp
  then have "round_53 n \<le> 1 * 2 ^ e"
    by (intro round_53_le_representable) simp_all
  then have "round_53 n \<le> 2 ^ e"
    by simp
  then have "real (round_53 n) \<le> real (2 ^ e)"
    by (rule of_nat_mono)
  then show ?thesis
    by (simp add: val_def fadd_def Let_def n_def e_def field_simps)
qed

lemma fadd_ge_left:
  assumes "fst x = c * 2 ^ j" and "c \<le> 2 ^ 53"
  shows "val x \<le> val (fadd x y)"
proof -
  define e where "e = max (snd x) (snd y)"
  define n where "n = fst x * 2 ^ (e - snd x) + fst y * 2 ^ (e - snd y)"
  have "c * 2 ^ (j + (e - snd x)) \<le> n"
    unfolding n_def assms(1) by (simp add: power_add)
  then have "c * 2 ^ (j + (e - snd x)) \<le> round_53 n"
    using assms(2) by (intro round_53_ge_representable)
  then have "fst x * 2 ^ (e - snd x) \<le> round_53 n"
    unfolding assms(1) by (simp add: power_add)
  then have "real (fst x * 2 ^ (e - snd x)) \<le> real (round_53 n)"
    by (rule of_nat_mono)
  then have "real (fst x * 2 ^ (e - snd x)) / 2 ^ e \<le> real (round_53 n) / 2 ^ e"
    by (intro divide_right_mono) simp_all
  moreover have "(2::real) ^ e = 2 ^ (e - snd x) * 2 ^ snd x"
    unfolding e_def by (simp flip: power_add)
  then have "real (fst x * 2 ^ (e - snd x)) / 2 ^ e = val x"
    unfolding val_def by simp
  ultimately show ?thesis
    by (simp add: val_def fadd_def Let_def n_def e_def)
qed

lemma truediv_le_one:
  assumes "b \<le> d" and "0 < d"
  shows "val (truediv b d) \<le> 1"
proof -
  define q where "q = (b * 2 ^ 64) div d"
  define s :: nat where "s = (if (b * 2 ^ 64) mod d = 0 then 0 else 1)"
  have bd: "b * 2 ^ 64 \<le> d * 2 ^ 64"
    using assms(1) by (rule mult_le_mono1)
  have "2 * q + s \<le> 2 ^ 65"
  proof (cases "(b * 2 ^ 64) mod d = 0")
    case True
    have "q \<le> (d * 2 ^ 64) div d"
      unfolding q_def using bd by (rule div_le_mono)
    then have "q \<le> 2 ^ 64"
      using assms(2) by simp
    then show ?thesis
      using True by (simp add: s_def)
  next
    case False
    have "q * d + (b * 2 ^ 64) mod d = b * 2 ^ 64"
      unfolding q_def by (rule div_mult_mod_eq)
    with False have "q * d < b * 2 ^ 64"
      by linarith
    from this bd have "q * d < d * 2 ^ 64"
      by (rule less_le_trans)
    then have "q * d < 2 ^ 64 * d"
      by (simp only: mult.commute[of d])
    then have "q < 2 ^ 64"
      by simp
    then show ?thesis
      by (simp add: s_def)
  qed
  then have "2 * q + s \<le> 1 * 2 ^ 65"
    by simp
  then have "round_53 (2 * q + s) \<le> 1 * 2 ^ 65"
    by (intro round_53_le_representable) simp_all
  then have "round_53 (2 * q + s) \<le> 2 ^ 65"
    by simp
  then have "real (round_53 (2 * q + s)) \<le> real (2 ^ 65)"
    by (rule of_nat_mono)
  then show ?thesis
    by (simp add: val_def truediv_def Let_def q_def s_def)
qed

subsection \<open>Amplitude and phase\<close>

lemma float_of_int_small: "n < 2 ^ 53 \<Longrightarrow> float_of_int n = (n, 0)"
  by (simp add: float_of_int_def round_53_small)

lemma amp_factor_bounds:
  assumes "b \<le> 255"
  shows "val literal_0_7 \<le> val (fadd literal_0_7 (fmul (truediv b 255) literal_0_3))"
    and "val (fadd literal_0_7 (fmul (truediv b 255) literal_0_3)) \<le> 1"
proof -
  have x: "val (truediv b 255) \<le> 2 ^ 0"
    using truediv_le_one[of b 255] assms by simp
  have "val (fmul literal_0_3 (truediv b 255)) \<le> 2 ^ 0 * val literal_0_3"
    using x by (intro fmul_le[where c = 5404319552844595 and j = 0])
               (simp_all add: literal_0_3_def)
  then have y: "val (fmul (truediv b 255) literal_0_3) \<le> val literal_0_3"
    by (simp add: fmul_commute)
  have "val literal_0_7 + val literal_0_3 \<le> 1"
    by (simp add: val_def literal_0_7_def literal_0_3_def)
  with y have "val literal_0_7 + val (fmul (truediv b 255) literal_0_3) \<le> 1"
    by linarith
  then show "val (fadd literal_0_7 (fmul (truediv b 255) literal_0_3)) \<le> 1"
    by (rule fadd_le_one)
  show "val literal_0_7 \<le> val (fadd literal_0_7 (fmul (truediv b 255) literal_0_3))"
    by (rule fadd_ge_left[where c = 3152519739159347 and j = 0])
       (simp_all add: literal_0_7_def)
qed

lemma amp_bounds:
  assumes "b \<le> 255" and "canvas_size < 2 ^ 53"
  defines "max_radius \<equiv> fmul (float_of_int canvas_size) literal_0_475"
  defines "a \<equiv> val (fmul max_radius (fadd literal_0_7 (fmul (truediv b 255) literal_0_3)))"
  shows "a \<le> val max_radius"
    and "a \<le> (1 + 1 / 2 ^ 50) * (0.475 * real canvas_size)"
    and "(1 - 1 / 2 ^ 50) * (0.7 * (0.475 * real canvas_size)) \<le> a"
proof -
  define f where "f = fadd literal_0_7 (fmul (truediv b 255) literal_0_3)"
  define u :: real where "u = 1 / 2 ^ 53"
  define vA where "vA = val literal_0_475"
  define v7 where "v7 = val literal_0_7"
  define c where "c = real canvas_size"
  have c0: "0 \<le> c"
    by (simp add: c_def)
  have f: "v7 \<le> val f" "val f \<le> 1"
    unfolding f_def v7_def using amp_factor_bounds[OF assms(1)] by simp_all
  have vc: "val (float_of_int canvas_size) = c"
    by (simp add: float_of_int_small[OF assms(2)] val_def c_def)
  have "fst max_radius = round_53 (fst (float_of_int canvas_size) * fst literal_0_475)"
    by (simp add: max_radius_def fmul_def)
  with round_53_representable[of "fst (float_of_int canvas_size) * fst literal_0_475"]
  obtain m j where m: "fst max_radius = m * 2 ^ j" "m \<le> 2 ^ 53"
    by metis
  have "val f \<le> 2 ^ 0"
    using f(2) by simp
  with m have "val (fmul max_radius f) \<le> 2 ^ 0 * val max_radius"
    by (rule fmul_le)
  then show le: "a \<le> val max_radius"
    by (simp add: a_def f_def)
  have up: "val max_radius \<le> (1 + u) * (c * vA)"
    unfolding max_radius_def u_def vA_def using fmul_upper[of "float_of_int canvas_size" literal_0_475]
    by (simp only: vc)
  have lo: "(1 - u) * (c * vA) \<le> val max_radius"
    unfolding max_radius_def u_def vA_def using fmul_lower[of "float_of_int canvas_size" literal_0_475]
    by (simp only: vc)
  have k1: "(1 + u) * vA \<le> (1 + 1 / 2 ^ 50) * 0.475"
    by (simp add: u_def vA_def val_def literal_0_475_def)
  have "(1 + u) * (c * vA) = ((1 + u) * vA) * c"
    by simp
  also have "\<dots> \<le> ((1 + 1 / 2 ^ 50) * 0.475) * c"
    using k1 c0 by (rule mult_right_mono)
  finally have "val max_radius \<le> (1 + 1 / 2 ^ 50) * (0.475 * c)"
    using up by simp
  with le show "a \<le> (1 + 1 / 2 ^ 50) * (0.475 * real canvas_size)"
    unfolding c_def by linarith
  have r0: "0 \<le> val max_radius"
    by (rule val_nonneg)
  have u1: "0 \<le> 1 - u"
    by (simp add: u_def)
  have v0: "0 \<le> v7"
    unfolding v7_def by (rule val_nonneg)
  have k2: "(1 - 1 / 2 ^ 50) * (0.7 * 0.475) \<le> (1 - u) * ((1 - u) * vA * v7)"
    by (simp add: u_def vA_def v7_def val_def literal_0_475_def literal_0_7_def)
  have "(1 - 1 / 2 ^ 50) * (0.7 * (0.475 * c)) = ((1 - 1 / 2 ^ 50) * (0.7 * 0.475)) * c"
    by simp
  also have "\<dots> \<le> ((1 - u) * ((1 - u) * vA * v7)) * c"
    using k2 c0 by (rule mult_right_mono)
  also have "\<dots> = (1 - u) * (((1 - u) * (c * vA)) * v7)"
    by simp
  also have "\<dots> \<le> (1 - u) * (val max_radius * v7)"
    using lo v0 u1 by (intro mult_left_mono mult_right_mono)
  also have "\<dots> \<le> (1 - u) * (val max_radius * val f)"
    using f(1) r0 u1 by (intro mult_left_mono)
  also have "\<dots> \<le> val (fmul max_radius f)"
    unfolding u_def by (rule fmul_lower)
  finally show "(1 - 1 / 2 ^ 50) * (0.7 * (0.475 * real canvas_size)) \<le> a"
    by (simp add: a_def f_def c_def)
qed

lemma phase_bounds:
  assumes "b \<le> 255"
  shows "val (fmul (fmul (truediv b 255) (float_of_int 2)) math_pi) \<le> 2 * pi"
proof -
  have two: "float_of_int 2 = (2, 0)"
    by (rule float_of_int_small) simp
  have x: "val (truediv b 255) \<le> 2 ^ 0"
    using truediv_le_one[of b 255] assms by simp
  have "val (fmul (2, 0) (truediv b 255)) \<le> 2 ^ 0 * val (2, 0)"
    using x by (intro fmul_le[where c = 1 and j = 1]) simp_all
  then have t: "val (fmul (truediv b 255) (float_of_int 2)) \<le> 2 ^ 1"
    by (simp add: fmul_commute two val_def)
  have "val (fmul math_pi (fmul (truediv b 255) (float_of_int 2))) \<le> 2 ^ 1 * val math_pi"
    using t by (intro fmul_le[where c = 884279719003555 and j = 0])
               (simp_all add: math_pi_def)
  also have "val math_pi \<le> pi"
    using math_pi_less_pi by (simp add: val_def math_pi_def)
  finally show ?thesis
    by (simp add: fmul_commute)
qed

lemma py_index_map_unat:
  "i < length key \<Longrightarrow> py_index (map unat key) i = Inr (unat (key ! i))"
  by (simp add: py_index_def)

lemma byte_div_32: "unat (b :: byte) div 32 \<le> 7"
proof -
  have "unat b < 256" using unsigned_less[of b] by simp
  then show ?thesis by simp
qed

lemma guilloche_curve_params_eq:
  assumes "length key = 16" and "i < 4"
  shows "guilloche_curve_params key canvas_size i =
     Inr \<lparr>amp = val (fmul (fmul (float_of_int canvas_size) literal_0_475)
                  (fadd literal_0_7 (fmul (truediv (unat (key ! (4 * i))) 255) literal_0_3))),
          freq = 8 + unat (key ! (4 * i + 1)) div 32,
          petals = 5 + unat (key ! (4 * i + 2)) div 32,
          phase = val (fmul (fmul (truediv (unat (key ! (4 * i + 3))) 255) (float_of_int 2))
                    math_pi)\<rparr>"
proof -
  have m: "(i * 4) mod 16 = 4 * i" "(i * 4 + 1) mod 16 = 4 * i + 1"
    "(i * 4 + 2) mod 16 = 4 * i + 2" "(i * 4 + 3) mod 16 = 4 * i + 3"
    using assms(2) by simp_all
  have l: "4 * i < length key" "4 * i + 1 < length key" "4 * i + 2 < length key"
    "4 * i + 3 < length key"
    using assms by simp_all
  show ?thesis
    unfolding guilloche_curve_params_def Let_def m py_index_map_unat[OF l(1)]
      py_index_map_unat[OF l(2)] py_index_map_unat[OF l(3)] py_index_map_unat[OF l(4)] bind_def
    by (simp only: sum.case)
qed

subsection \<open>The doubles of two canvases\<close>

lemma round_53_at:
  assumes "2 ^ 52 * 2 ^ k \<le> n" and "n < 2 ^ 53 * 2 ^ k"
  shows "round_53 n =
     (if 2 ^ k < 2 * (n mod 2 ^ k) \<or> (2 * (n mod 2 ^ k) = 2 ^ k \<and> odd (n div 2 ^ k))
      then (n div 2 ^ k + 1) * 2 ^ k else (n div 2 ^ k) * 2 ^ k)"
proof -
  have "(2::nat) ^ (52 + k) \<le> n"
    using assms(1) by (simp add: power_add)
  then have "Suc (52 + k) \<le> floorlog 2 n"
    by (intro floorlog_ge_SucI) simp_all
  moreover have "n < 2 ^ (53 + k)"
    using assms(2) by (simp add: power_add)
  then have "floorlog 2 n \<le> 53 + k"
    by (intro floorlog_leI) simp_all
  ultimately have "floorlog 2 n - 53 = k"
    by simp
  then show ?thesis
    by (simp add: round_53_def Let_def)
qed

lemma counterexample_roundings:
  "round_53 0 = 0"
  "round_53 802 = 802"
  "round_53 1081 = 1081"
  "round_53 3431292556093580742 = 3431292556093580800"
  "round_53 4624971637328130651 = 4624971637328131072"
  "round_53 36893488147419103232 = 36893488147419103232"
  "round_53 199384199367737373556873429558231040 = 199384199367737373556873429558231040"
  "round_53 465229798524720526001541953162838016 = 465229798524720526001541953162838016"
  "round_53 664613997892457899558415382721069056 = 664613997892457936451903530140172288"
  "round_53 1596339544550789899579277515008991837345149807807692800 = 1596339544550789830711975053392497439884356978110103552"
  "round_53 3073820890023876235900260204961342448078874499126132736 = 3073820890023876235900260204961342448078874499126132736"
proof -
  show "round_53 0 = 0"
    by (rule round_53_small) simp
  show "round_53 802 = 802"
    by (rule round_53_small) simp
  show "round_53 1081 = 1081"
    by (rule round_53_small) simp
  show "round_53 3431292556093580742 = 3431292556093580800"
    by (subst round_53_at[where k = 9]) simp_all
  show "round_53 4624971637328130651 = 4624971637328131072"
    by (subst round_53_at[where k = 10]) simp_all
  show "round_53 36893488147419103232 = 36893488147419103232"
    by (subst round_53_at[where k = 13]) simp_all
  show "round_53 199384199367737373556873429558231040 = 199384199367737373556873429558231040"
    by (subst round_53_at[where k = 65]) simp_all
  show "round_53 465229798524720526001541953162838016 = 465229798524720526001541953162838016"
    by (subst round_53_at[where k = 66]) simp_all
  show "round_53 664613997892457899558415382721069056 = 664613997892457936451903530140172288"
    by (subst round_53_at[where k = 66]) simp_all
  show "round_53 1596339544550789899579277515008991837345149807807692800 = 1596339544550789830711975053392497439884356978110103552"
    by (subst round_53_at[where k = 128]) simp_all
  show "round_53 3073820890023876235900260204961342448078874499126132736 = 3073820890023876235900260204961342448078874499126132736"
    by (subst round_53_at[where k = 129]) simp_all
qed

lemma amp_802:
  "val (fmul (fmul (float_of_int 802) literal_0_475)
          (fadd literal_0_7 (fmul (truediv 0 255) literal_0_3))) = 293201268220887 / 2 ^ 40"
  by (simp add: val_def fmul_def fadd_def truediv_def float_of_int_def literal_0_475_def
      literal_0_7_def literal_0_3_def counterexample_roundings)

lemma max_radius_802:
  "val (fmul (float_of_int 802) literal_0_475) = 6701743273620275 / 2 ^ 44"
  by (simp add: val_def fmul_def float_of_int_def literal_0_475_def counterexample_roundings)

lemma amp_1081:
  "val (fmul (fmul (float_of_int 1081) literal_0_475)
          (fadd literal_0_7 (fmul (truediv 255 255) literal_0_3))) = 4516573864578253 / 2 ^ 43"
  by (simp add: val_def fmul_def fadd_def truediv_def float_of_int_def literal_0_475_def
      literal_0_7_def literal_0_3_def counterexample_roundings)

text \<open>
  C7 as stated fails for the amplitude, which app.py computes in doubles.  With a first
  key byte of 0 on a canvas of 802 the amplitude is 266.66499999999996..., below 70% of
  the double \<open>max_radius\<close> and below 70% of 47.5% of 802 (266.665).  With a first key
  byte of 255 on a canvas of 1081 the amplitude is the double \<open>max_radius\<close>, which lies
  above 47.5% of 1081.
\<close>

theorem amplitude_range_counterexample:
  "map_sum id amp (guilloche_curve_params key_a 802 0) = Inr (293201268220887 / 2 ^ 40)
   \<and> (293201268220887 / 2 ^ 40 :: real) < 0.7 * val (fmul (float_of_int 802) literal_0_475)
   \<and> (293201268220887 / 2 ^ 40 :: real) < 0.7 * (0.475 * 802)
   \<and> map_sum id amp (guilloche_curve_params key_b 1081 0) = Inr (4516573864578253 / 2 ^ 43)
   \<and> (0.475 * 1081 :: real) < 4516573864578253 / 2 ^ 43"
proof -
  have "map_sum id amp (guilloche_curve_params key_a 802 0) = Inr (293201268220887 / 2 ^ 40)"
    using amp_802 by (simp add: guilloche_curve_params_eq key_a_def)
  moreover have "map_sum id amp (guilloche_curve_params key_b 1081 0)
      = Inr (4516573864578253 / 2 ^ 43)"
    using amp_1081 by (simp add: guilloche_curve_params_eq key_b_def)
  moreover have "(293201268220887 / 2 ^ 40 :: real)
      < 0.7 * val (fmul (float_of_int 802) literal_0_475)"
    by (simp add: max_radius_802)
  moreover have "(293201268220887 / 2 ^ 40 :: real) < 0.7 * (0.475 * 802)"
    by simp
  moreover have "(0.475 * 1081 :: real) < 4516573864578253 / 2 ^ 43"
    by simp
  ultimately show ?thesis
    by (simp only: simp_thms)
qed

text \<open>
  C7, amended.  For every 16-byte key, every curve \<open>i < 4\<close> and every canvas size below
  \<open>2^53\<close>, curve \<open>i\<close> takes its bytes from offsets \<open>4 * i\<close> to \<open>4 * i + 3\<close> of the key and
  no index fails; the frequency is an integer in \<open>[8, 15]\<close>, the petal count an integer
  in \<open>[5, 12]\<close>, the phase lies in \<open>[0, 2 * pi]\<close>; the amplitude is at most the double
  \<open>max_radius = canvas_size * 0.475\<close>, and it lies between 70% and 100% of 47.5% of the
  canvas size up to a relative error of \<open>2^-50\<close>.
\<close>

theorem guilloche_params_in_range:
  assumes "length key = 16" and "i < 4" and "canvas_size < 2 ^ 53"
  shows "\<exists>p. guilloche_curve_params key canvas_size i = Inr p
     \<and> amp p = val (fmul (fmul (float_of_int canvas_size) literal_0_475)
                       (fadd literal_0_7 (fmul (truediv (unat (key ! (4 * i))) 255) literal_0_3)))
     \<and> freq p = 8 + unat (key ! (4 * i + 1)) div 32
     \<and> petals p = 5 + unat (key ! (4 * i + 2)) div 32
     \<and> phase p = val (fmul (fmul (truediv (unat (key ! (4 * i + 3))) 255) (float_of_int 2)) math_pi)
     \<and> (1 - 1 / 2 ^ 50) * (0.7 * (0.475 * real canvas_size)) \<le> amp p
     \<and> amp p \<le> (1 + 1 / 2 ^ 50) * (0.475 * real canvas_size)
     \<and> amp p \<le> val (fmul (float_of_int canvas_size) literal_0_475)
     \<and> 8 \<le> freq p \<and> freq p \<le> 15
     \<and> 5 \<le> petals p \<and> petals p \<le> 12
     \<and> 0 \<le> phase p \<and> phase p \<le> 2 * pi"
proof -
  define p where "p = \<lparr>amp = val (fmul (fmul (float_of_int canvas_size) literal_0_475)
                       (fadd literal_0_7 (fmul (truediv (unat (key ! (4 * i))) 255) literal_0_3))),
     freq = 8 + unat (key ! (4 * i + 1)) div 32,
     petals = 5 + unat (key ! (4 * i + 2)) div 32,
     phase = val (fmul (fmul (truediv (unat (key ! (4 * i + 3))) 255) (float_of_int 2)) math_pi)\<rparr>"
  have e: "guilloche_curve_params key canvas_size i = Inr p"
    unfolding p_def using assms(1,2) by (rule guilloche_curve_params_eq)
  have eqs: "amp p = val (fmul (fmul (float_of_int canvas_size) literal_0_475)
                       (fadd literal_0_7 (fmul (truediv (unat (key ! (4 * i))) 255) literal_0_3)))"
    "freq p = 8 + unat (key ! (4 * i + 1)) div 32"
    "petals p = 5 + unat (key ! (4 * i + 2)) div 32"
    "phase p = val (fmul (fmul (truediv (unat (key ! (4 * i + 3))) 255) (float_of_int 2)) math_pi)"
    by (simp_all add: p_def)
  have a: "(1 - 1 / 2 ^ 50) * (0.7 * (0.475 * real canvas_size)) \<le> amp p"
    "amp p \<le> (1 + 1 / 2 ^ 50) * (0.475 * real canvas_size)"
    "amp p \<le> val (fmul (float_of_int canvas_size) literal_0_475)"
    unfolding eqs(1) using amp_bounds[OF byte_le_255 assms(3), of "key ! (4 * i)"] by blast+
  have f: "8 \<le> freq p" "freq p \<le> 15" "5 \<le> petals p" "petals p \<le> 12"
    using byte_div_32[of "key ! (4 * i + 1)"] byte_div_32[of "key ! (4 * i + 2)"]
    by (simp_all add: p_def)
  have ph: "0 \<le> phase p" "phase p \<le> 2 * pi"
    unfolding eqs(4) using phase_bounds[OF byte_le_255] val_nonneg by blast+
  show ?thesis
    using e eqs a f ph by blast
qed

theorem guilloche_params_in_range_witness:
  "length key_b = 16 \<and> (0 :: nat) < 4 \<and> (1200 :: nat) < 2 ^ 53
   \<and> (\<exists>p. guilloche_curve_params key_b 1200 0 = Inr p
      \<and> amp p = val (fmul (fmul (float_of_int 1200) literal_0_475)
                       (fadd literal_0_7 (fmul (truediv 255 255) literal_0_3)))
      \<and> freq p = 8 \<and> petals p = 5
      \<and> phase p = val (fmul (fmul (truediv 0 255) (float_of_int 2)) math_pi)
      \<and> (1 - 1 / 2 ^ 50) * (0.7 * (0.475 * 1200)) \<le> amp p
      \<and> amp p \<le> (1 + 1 / 2 ^ 50) * (0.475 * 1200)
      \<and> amp p \<le> val (fmul (float_of_int 1200) literal_0_475)
      \<and> 0 \<le> phase p \<and> phase p \<le> 2 * pi)"
  using guilloche_params_in_range [of key_b 0 1200]
  by (simp add: key_b_def) blast

section \<open>Dash walk\<close>










end
